theory Spec2Isabelle
  imports Main
begin

section \<open>The rule-to-behavior compiler of the cody hooks\<close>

text \<open>
  A shallow embedding of
  \<^verbatim>\<open>packages/cody/src/lib/hooks/utils/rule-engine/convert-rule-config-to-behavior.ts\<close>.
  The TypeScript builds the generated code as an array of lines that every
  function of the pipeline pushes to; here that array is threaded through the
  functions as explicit state. A function whose return type is
  \<^verbatim>\<open>X | CodyResponse\<close> returns a sum, \<open>Inl\<close> carrying a response on which
  \<^verbatim>\<open>isCodyError\<close> answers true.
\<close>

subsection \<open>Data\<close>

datatype CodyResponseType = Info | Error | Warning | Question | SyncRequired | Empty

record CodyResponse =
  cody :: string
  type :: CodyResponseType
  details :: "string option"

text \<open>Of a graph node the compiler reads the name and the type only.\<close>

record Node =
  getName :: string
  getType :: string

record Variable =
  name :: string
  initializer :: string

text \<open>
  A mapping is a string or an object from property names to expressions. The
  object is the list of its properties, each name once, in the order in which
  they are declared.
\<close>

datatype Mapping = MappingString string | PropMapping "(string \<times> string) list"

record RecordEventConfig =
  event :: string
  mapping :: Mapping

text \<open>
  Modelled from the spec: the types \<^verbatim>\<open>Rule\<close> and \<^verbatim>\<open>ThenType\<close> and the guards
  \<^verbatim>\<open>isIfConditionRule\<close>, \<^verbatim>\<open>isIfNotConditionRule\<close>, \<^verbatim>\<open>isRecordEvent\<close> and
  \<^verbatim>\<open>isExecuteRules\<close> of \<^verbatim>\<open>./configuration\<close>, which is not among the sources. A
  rule has its kind \<^verbatim>\<open>rule\<close>, the optional fields \<^verbatim>\<open>if\<close>, \<^verbatim>\<open>if_not\<close> and
  \<^verbatim>\<open>stop\<close>, and its \<^verbatim>\<open>then\<close>; the polarity of a condition is read from which of
  \<^verbatim>\<open>if\<close> and \<^verbatim>\<open>if_not\<close> is present. The \<^verbatim>\<open>then\<close> part is an object told by
  its shape: it may have a \<^verbatim>\<open>record\<close> field, an \<^verbatim>\<open>execute\<close> field (whose
  \<^verbatim>\<open>rules\<close> are kept here), both, or neither (any other action). A guard holds
  when the field it asks for is present.
\<close>

datatype Then = Then (then_record: "RecordEventConfig option") (then_execute: "Rule list option")
  and Rule = Rule (rule_rule: string) (rule_if: "string option") (rule_if_not: "string option")
                  (rule_stop: "bool option") (rule_then: Then)

text \<open>What a translation function returns when it does not return an error.\<close>

datatype Success = ReturnedTrue | ReturnedUndefined

type_synonym Result = "CodyResponse + Success"

text \<open>
  The collaborators, which are imported and not among the sources, are
  parameters of the translation: the identifier forms of \<^verbatim>\<open>names\<close>, the service
  resolver \<^verbatim>\<open>detectService\<close>, the lookup \<^verbatim>\<open>getTargetsOfType\<close> of a node's
  targets, and \<^verbatim>\<open>JSON.stringify\<close> on a rule.
\<close>

record 'ctx Collaborators =
  className :: "string \<Rightarrow> string"
  propertyName :: "string \<Rightarrow> string"
  detectService :: "Node \<Rightarrow> 'ctx \<Rightarrow> CodyResponse + string"
  getTargetsOfType :: "Node \<Rightarrow> string \<Rightarrow> bool \<Rightarrow> CodyResponse + Node list"
  JSON_stringify :: "Rule \<Rightarrow> string"

subsection \<open>Strings\<close>

text \<open>\<^verbatim>\<open>s.split(c)\<close> for a separator of one character, and \<^verbatim>\<open>lines.join(sep)\<close>.\<close>

fun split :: "char \<Rightarrow> string \<Rightarrow> string list" where
  "split c [] = ['''']"
| "split c (x # xs) =
     (if x = c then [] # split c xs
      else (case split c xs of [] \<Rightarrow> [[x]] | p # ps \<Rightarrow> (x # p) # ps))"

fun join :: "string \<Rightarrow> string list \<Rightarrow> string" where
  "join sep [] = []"
| "join sep [l] = l"
| "join sep (l # m # ls) = l @ sep @ join sep (m # ls)"

definition isCodyError :: "CodyResponse + 'a \<Rightarrow> bool" where
  "isCodyError res = (case res of Inl _ \<Rightarrow> True | Inr _ \<Rightarrow> False)"

subsection \<open>Expressions and mappings\<close>

definition wrapExpression :: "string \<Rightarrow> string" where
  \<open>wrapExpression expr = ''await jexl.eval("'' @ expr @ ''", ctx)''\<close>

text \<open>
  The order of \<^verbatim>\<open>for ... in\<close> over an object: the properties whose names are
  array indices (\<^verbatim>\<open>0\<close>, or decimal digits with no leading zero, below
  4294967295) come first, by ascending index, and the other properties follow
  in the order in which they were created.
\<close>

definition digitValue :: "char \<Rightarrow> nat option" where
  "digitValue =
     map_of [(CHR ''0'', 0), (CHR ''1'', 1), (CHR ''2'', 2), (CHR ''3'', 3), (CHR ''4'', 4),
             (CHR ''5'', 5), (CHR ''6'', 6), (CHR ''7'', 7), (CHR ''8'', 8), (CHR ''9'', 9)]"

fun decimalValue :: "nat \<Rightarrow> string \<Rightarrow> nat option" where
  "decimalValue n [] = Some n"
| "decimalValue n (ch # rest) =
     (case digitValue ch of None \<Rightarrow> None | Some d \<Rightarrow> decimalValue (10 * n + d) rest)"

definition arrayIndex :: "string \<Rightarrow> nat option" where
  "arrayIndex propName =
     (if propName = '''' \<or> (1 < length propName \<and> hd propName = CHR ''0'') then None
      else (case decimalValue 0 propName of
              None \<Rightarrow> None
            | Some n \<Rightarrow> if n < 4294967295 then Some n else None))"

definition forIn :: "(string \<times> 'a) list \<Rightarrow> (string \<times> 'a) list" where
  "forIn props =
     sort_key (\<lambda>p. case arrayIndex (fst p) of Some n \<Rightarrow> n | None \<Rightarrow> 0)
       (filter (\<lambda>p. arrayIndex (fst p) \<noteq> None) props)
     @ filter (\<lambda>p. arrayIndex (fst p) = None) props"

text \<open>
  The body of the \<^verbatim>\<open>for ... in\<close> loop of \<^verbatim>\<open>convertMapping\<close>, appending to
  \<^verbatim>\<open>propMap\<close>, over the properties in the order given.
\<close>

fun convertMapping_loop :: "string \<Rightarrow> (string \<times> string) list \<Rightarrow> string \<Rightarrow> string" where
  \<open>convertMapping_loop indent [] propMap = propMap\<close>
| \<open>convertMapping_loop indent ((propName, expr) # rest) propMap =
     convertMapping_loop indent rest
       (propMap @ indent @ ''  "'' @ propName @ ''": '' @ wrapExpression expr @ '',\<newline>'')\<close>

definition convertMapping ::
  "Node \<Rightarrow> 'ctx \<Rightarrow> Mapping \<Rightarrow> Rule \<Rightarrow> string \<Rightarrow> CodyResponse + string" where
  \<open>convertMapping node ctx m rule indent =
     (case m of
        MappingString s \<Rightarrow> Inr (wrapExpression s)
      | PropMapping props \<Rightarrow>
          Inr (convertMapping_loop indent (forIn props) ''{\<newline>'' @ indent @ ''}''))\<close>

subsection \<open>Actions\<close>

definition dotInEventName :: "'ctx Collaborators \<Rightarrow> Node \<Rightarrow> Rule \<Rightarrow> string \<Rightarrow> CodyResponse" where
  \<open>dotInEventName E node rule service =
     \<lparr>cody = ''Please don't use a dot in the event name of a record:event rule. I found one in the rule: ''
          @ JSON_stringify E rule @ '' of aggregate "'' @ getName node @ ''"'',
      type = Error,
      details = Some (''You don't have to provide the full event name including service and aggregate. I'm using service "''
          @ service @ ''" and aggregate name: "'' @ getName node @ ''" for that event.'')\<rparr>\<close>

definition eventNotKnown :: "'ctx Collaborators \<Rightarrow> Node \<Rightarrow> Rule \<Rightarrow> string \<Rightarrow> CodyResponse" where
  \<open>eventNotKnown E node rule evt =
     \<lparr>cody = ''The event "'' @ evt @ ''" specified in the rule: '' @ JSON_stringify E rule
          @ '' of aggregate "'' @ getName node @ ''" is not known for that aggregate'',
      type = Error,
      details = Some ''An aggregate can only record events that are connected to it with an arrow pointing from the aggregate to the event.''\<rparr>\<close>

text \<open>The \<^verbatim>\<open>forEach\<close> over the aggregate's events, setting \<^verbatim>\<open>eventExists\<close>.\<close>

definition eventExists :: "'ctx Collaborators \<Rightarrow> Node list \<Rightarrow> string \<Rightarrow> bool" where
  "eventExists E events evt =
     fold (\<lambda>e found. if className E (getName e) = className E evt then True else found)
       events False"

definition convertThenRecordEvent ::
  "'ctx Collaborators \<Rightarrow> Node \<Rightarrow> 'ctx \<Rightarrow> RecordEventConfig \<Rightarrow> Rule \<Rightarrow> string list \<Rightarrow> string
     \<Rightarrow> Result \<times> string list" where
  \<open>convertThenRecordEvent E node ctx rec rule lines indent =
     (case detectService E node ctx of
        Inl err \<Rightarrow> (Inl err, lines)
      | Inr service \<Rightarrow>
          if length (split (CHR ''.'') (event rec)) > 1
          then (Inl (dotInEventName E node rule service), lines)
          else
            (case getTargetsOfType E node ''event'' True of
               Inl err \<Rightarrow> (Inl err, lines)
             | Inr events \<Rightarrow>
                 if \<not> eventExists E events (event rec)
                 then (Inl (eventNotKnown E node rule (event rec)), lines)
                 else
                   (case convertMapping node ctx (mapping rec) rule indent of
                      Inl err \<Rightarrow> (Inl err, lines)
                    | Inr m \<Rightarrow>
                        (Inr ReturnedUndefined,
                         lines @ [indent @ ''yield '' @ propertyName E (event rec)
                                    @ ''('' @ m @ '');'']))))\<close>

subsection \<open>Rules\<close>

definition unknownRuleType :: "Rule \<Rightarrow> CodyResponse" where
  \<open>unknownRuleType rule =
     \<lparr>cody = ''I don't know how to handle a rule of type "'' @ rule_rule rule @ ''".'',
      type = Error,
      details = Some ''Looks like a typo on your side. I can handle the following rule types: always, condition, validate''\<rparr>\<close>

definition noCondition :: "'ctx Collaborators \<Rightarrow> Node \<Rightarrow> Rule \<Rightarrow> CodyResponse" where
  \<open>noCondition E node rule =
     \<lparr>cody = ''I don't know how to handle a condition rule that neither has an "if" nor a "if_not" condition defined: "''
          @ JSON_stringify E rule @ ''".'',
      type = Error,
      details = Some (''Looks like a mistake on your side. Please check the rules of ''
          @ getType node @ '': "'' @ getName node @ ''"'')\<rparr>\<close>

definition unknownThen :: "'ctx Collaborators \<Rightarrow> Rule \<Rightarrow> CodyResponse" where
  \<open>unknownThen E rule =
     \<lparr>cody = ''I don't know the "then" part of that rule: '' @ JSON_stringify E rule @ ''.'',
      type = Error,
      details = Some ''Looks like a typo on your side. I can only perform the actions: record: event, throw: error, assign: variable, trigger: command, perform: query, execute: rules''\<rparr>\<close>

function convertRule ::
    "'ctx Collaborators \<Rightarrow> Node \<Rightarrow> 'ctx \<Rightarrow> Rule \<Rightarrow> string list \<Rightarrow> string \<Rightarrow> Result \<times> string list"
  and convertAlwaysRule ::
    "'ctx Collaborators \<Rightarrow> Node \<Rightarrow> 'ctx \<Rightarrow> Rule \<Rightarrow> string list \<Rightarrow> string \<Rightarrow> Result \<times> string list"
  and convertConditionRule ::
    "'ctx Collaborators \<Rightarrow> Node \<Rightarrow> 'ctx \<Rightarrow> Rule \<Rightarrow> string list \<Rightarrow> string \<Rightarrow> Result \<times> string list"
  and convertThen ::
    "'ctx Collaborators \<Rightarrow> Node \<Rightarrow> 'ctx \<Rightarrow> Rule \<Rightarrow> string list \<Rightarrow> string \<Rightarrow> Result \<times> string list"
  and convertThenExecuteRules ::
    "'ctx Collaborators \<Rightarrow> Node \<Rightarrow> 'ctx \<Rightarrow> Rule list \<Rightarrow> Rule \<Rightarrow> string list \<Rightarrow> string
       \<Rightarrow> Result \<times> string list"
where
  \<open>convertRule E aggregate ctx rule lines indent =
     (if rule_rule rule = ''always'' then convertAlwaysRule E aggregate ctx rule lines indent
      else if rule_rule rule = ''condition'' then convertConditionRule E aggregate ctx rule lines indent
      else (Inl (unknownRuleType rule), lines))\<close>
| \<open>convertAlwaysRule E aggregate ctx rule lines indent = convertThen E aggregate ctx rule lines indent\<close>
| \<open>convertConditionRule E node ctx rule lines indent =
     (case (case rule_if rule of
              Some e \<Rightarrow> Some (''if ('', e)
            | None \<Rightarrow> (case rule_if_not rule of Some e \<Rightarrow> Some (''if (!'', e) | None \<Rightarrow> None)) of
        None \<Rightarrow> (Inl (noCondition E node rule), lines)
      | Some (ifCondition, expr) \<Rightarrow>
          (case convertThen E node ctx rule
                  (lines @ [indent @ ifCondition @ ''('' @ wrapExpression expr @ '')) {''])
                  (indent @ ''  '') of
             (Inl err, lines') \<Rightarrow> (Inl err, lines')
           | (Inr _, lines') \<Rightarrow>
               (Inr ReturnedTrue,
                (if rule_stop rule = Some True then lines' @ [indent @ ''  return;''] else lines')
                  @ [indent @ ''}''])))\<close>
| \<open>convertThen E node ctx rule lines indent =
     (case then_record (rule_then rule) of
        Some rec \<Rightarrow> convertThenRecordEvent E node ctx rec rule lines indent
      | None \<Rightarrow>
          (case then_execute (rule_then rule) of
             Some rs \<Rightarrow> convertThenExecuteRules E node ctx rs rule lines indent
           | None \<Rightarrow> (Inl (unknownThen E rule), lines)))\<close>
| \<open>convertThenExecuteRules E node ctx [] rule lines indent = (Inr ReturnedTrue, lines)\<close>
| \<open>convertThenExecuteRules E node ctx (r # rs) rule lines indent =
     (case convertRule E node ctx r lines indent of
        (Inl err, lines') \<Rightarrow> (Inl err, lines')
      | (Inr _, lines') \<Rightarrow> convertThenExecuteRules E node ctx rs rule lines' indent)\<close>
  by pat_completeness auto

termination
proof (relation "measure (\<lambda>x. case x of
          Inl (Inl (E, n, c, r, l, i)) \<Rightarrow> 4 * size r + 3
        | Inl (Inr (E, n, c, r, l, i)) \<Rightarrow> 4 * size r + 2
        | Inr (Inl (E, n, c, r, l, i)) \<Rightarrow> 4 * size r + 2
        | Inr (Inr (Inl (E, n, c, r, l, i))) \<Rightarrow> 4 * size r + 1
        | Inr (Inr (Inr (E, n, c, rs, r, l, i))) \<Rightarrow> 4 * size_list size rs)")
  fix E :: "'ctx Collaborators" and node :: Node and ctx :: 'ctx and rule :: Rule
    and lines :: "string list" and indent :: string and x2 :: "Rule list"
  assume "then_execute (rule_then rule) = Some x2"
  then have "size_list size x2 < size (rule_then rule)"
    by (cases "rule_then rule") auto
  also have "\<dots> < size rule"
    by (cases rule) auto
  finally show "(Inr (Inr (Inr (E, node, ctx, x2, rule, lines, indent))),
                 Inr (Inr (Inl (E, node, ctx, rule, lines, indent))))
                \<in> measure (\<lambda>x. case x of
          Inl (Inl (E, n, c, r, l, i)) \<Rightarrow> 4 * size r + 3
        | Inl (Inr (E, n, c, r, l, i)) \<Rightarrow> 4 * size r + 2
        | Inr (Inl (E, n, c, r, l, i)) \<Rightarrow> 4 * size r + 2
        | Inr (Inr (Inl (E, n, c, r, l, i))) \<Rightarrow> 4 * size r + 1
        | Inr (Inr (Inr (E, n, c, rs, r, l, i))) \<Rightarrow> 4 * size_list size rs)"
    by simp
qed simp_all

subsection \<open>The compiler\<close>

text \<open>The \<^verbatim>\<open>for\<close> loop over the top-level rules: a blank line, then the rule.\<close>

fun convertRules_loop ::
  "'ctx Collaborators \<Rightarrow> Node \<Rightarrow> 'ctx \<Rightarrow> Rule list \<Rightarrow> string list \<Rightarrow> string
     \<Rightarrow> CodyResponse option \<times> string list" where
  \<open>convertRules_loop E aggregate ctx [] lines indent = (None, lines)\<close>
| \<open>convertRules_loop E aggregate ctx (r # rs) lines indent =
     (case convertRule E aggregate ctx r (lines @ ['''']) indent of
        (Inl err, lines') \<Rightarrow> (Some err, lines')
      | (Inr _, lines') \<Rightarrow> convertRules_loop E aggregate ctx rs lines' indent)\<close>

definition variableLine :: "string \<Rightarrow> Variable \<Rightarrow> string" where
  \<open>variableLine indent variable =
     indent @ ''ctx['' @ [CHR 0x27] @ name variable @ [CHR 0x27] @ ''] = ''
       @ initializer variable @ '';''\<close>

definition convertRuleConfigToAggregateBehavior ::
  "'ctx Collaborators \<Rightarrow> Node \<Rightarrow> 'ctx \<Rightarrow> Rule list \<Rightarrow> Variable list \<Rightarrow> string
     \<Rightarrow> CodyResponse + string" where
  \<open>convertRuleConfigToAggregateBehavior E aggregate ctx rules initialVariables indent =
     (if length rules = 0 then Inr ''''
      else
        (case convertRules_loop E aggregate ctx rules
                (fold (\<lambda>variable lines. lines @ [variableLine indent variable]) initialVariables
                   [indent @ ''const ctx: any = {};''])
                indent of
           (Some err, _) \<Rightarrow> Inl err
         | (None, lines) \<Rightarrow> Inr (join ''\<newline>'' (lines @ ['''']))))\<close>

subsection \<open>Reading a rule list\<close>

text \<open>
  For the statements about a list of rules: the diagnostic of the first rule of
  the list whose translation (started on no lines) fails, and the lines that
  each rule of the list emits.
\<close>

definition firstDiagnostic ::
  "'ctx Collaborators \<Rightarrow> Node \<Rightarrow> 'ctx \<Rightarrow> Rule list \<Rightarrow> string \<Rightarrow> CodyResponse option" where
  "firstDiagnostic E node ctx rules indent =
     (case List.find (\<lambda>r. isCodyError (fst (convertRule E node ctx r [] indent))) rules of
        None \<Rightarrow> None
      | Some r \<Rightarrow> (case fst (convertRule E node ctx r [] indent) of
                    Inl err \<Rightarrow> Some err | Inr _ \<Rightarrow> None))"

definition translationsOf ::
  "'ctx Collaborators \<Rightarrow> Node \<Rightarrow> 'ctx \<Rightarrow> Rule list \<Rightarrow> string \<Rightarrow> string list list" where
  "translationsOf E node ctx rules indent = map (\<lambda>r. snd (convertRule E node ctx r [] indent)) rules"

text \<open>
  The kinds that the details of a diagnostic list: what follows the last colon,
  split at the commas, without the leading blanks.
\<close>

definition kindsListed :: "string \<Rightarrow> string list" where
  "kindsListed d =
     map (dropWhile (\<lambda>ch. ch = CHR '' '')) (split (CHR '','') (last (split (CHR '':'') d)))"

subsection \<open>The result as the specification words it\<close>

text \<open>
  Sections 4.1 and 7 of the specification, for comparison with the functions
  above. A rule has a diagnostic of its own when its kind is not known, when it
  is a condition rule with no condition, when its \<^verbatim>\<open>then\<close> has no known shape,
  or when its event cannot be recorded: the service is resolved first, then the
  name is checked for a dot, then the targets are looked up and searched by
  class name. The rules are visited in list and recursion order, each rule
  before the rules that it executes, and the compiler is to return the own
  diagnostic of the first rule that has one; when no rule has one, it is to
  return the block of all rules.
\<close>

definition recordEventDiagnostic ::
  "'ctx Collaborators \<Rightarrow> Node \<Rightarrow> 'ctx \<Rightarrow> RecordEventConfig \<Rightarrow> Rule \<Rightarrow> CodyResponse option" where
  "recordEventDiagnostic E node ctx rec rule =
     (case detectService E node ctx of
        Inl err \<Rightarrow> Some err
      | Inr service \<Rightarrow>
          if CHR ''.'' \<in> set (event rec) then Some (dotInEventName E node rule service)
          else (case getTargetsOfType E node ''event'' True of
                  Inl err \<Rightarrow> Some err
                | Inr events \<Rightarrow>
                    if \<exists>evt \<in> set events. className E (getName evt) = className E (event rec)
                    then None
                    else Some (eventNotKnown E node rule (event rec))))"

definition ownDiagnostic ::
  "'ctx Collaborators \<Rightarrow> Node \<Rightarrow> 'ctx \<Rightarrow> Rule \<Rightarrow> CodyResponse option" where
  "ownDiagnostic E node ctx rule =
     (if rule_rule rule \<noteq> ''always'' \<and> rule_rule rule \<noteq> ''condition''
      then Some (unknownRuleType rule)
      else if rule_rule rule = ''condition'' \<and> rule_if rule = None \<and> rule_if_not rule = None
      then Some (noCondition E node rule)
      else (case then_record (rule_then rule) of
              Some rec \<Rightarrow> recordEventDiagnostic E node ctx rec rule
            | None \<Rightarrow>
                (case then_execute (rule_then rule) of
                   Some rs \<Rightarrow> None
                 | None \<Rightarrow> Some (unknownThen E rule))))"

function rulesInOrder :: "Rule \<Rightarrow> Rule list"
  and rulesInOrder_list :: "Rule list \<Rightarrow> Rule list" where
  "rulesInOrder rule =
     rule # (case then_record (rule_then rule) of
               Some rec \<Rightarrow> []
             | None \<Rightarrow>
                 (case then_execute (rule_then rule) of
                    Some rs \<Rightarrow> rulesInOrder_list rs
                  | None \<Rightarrow> []))"
| "rulesInOrder_list [] = []"
| "rulesInOrder_list (r # rs) = rulesInOrder r @ rulesInOrder_list rs"
  by pat_completeness auto

termination
proof (relation "measure (\<lambda>x. case x of
          Inl r \<Rightarrow> 2 * size r
        | Inr rs \<Rightarrow> 2 * size_list size rs + 1)")
  fix rule :: Rule and x2 :: "Rule list"
  assume "then_execute (rule_then rule) = Some x2"
  then have "size_list size x2 < size (rule_then rule)"
    by (cases "rule_then rule") auto
  also have "\<dots> < size rule"
    by (cases rule) auto
  finally show "(Inr x2, Inl rule) \<in> measure (\<lambda>x. case x of
          Inl r \<Rightarrow> 2 * size r
        | Inr rs \<Rightarrow> 2 * size_list size rs + 1)"
    by simp
qed simp_all

definition firstOwnDiagnostic ::
  "'ctx Collaborators \<Rightarrow> Node \<Rightarrow> 'ctx \<Rightarrow> Rule list \<Rightarrow> CodyResponse option" where
  "firstOwnDiagnostic E node ctx rs =
     (case List.find (\<lambda>r. ownDiagnostic E node ctx r \<noteq> None) rs of
        None \<Rightarrow> None
      | Some r \<Rightarrow> ownDiagnostic E node ctx r)"

definition mappingText :: "Mapping \<Rightarrow> string \<Rightarrow> string" where
  \<open>mappingText m indent =
     (case m of
        MappingString expr \<Rightarrow> ''await jexl.eval("'' @ expr @ ''", ctx)''
      | PropMapping props \<Rightarrow>
          ''{\<newline>''
          @ concat (map (\<lambda>(propName, expr).
               indent @ ''  "'' @ propName @ ''": await jexl.eval("'' @ expr @ ''", ctx),\<newline>'')
               (forIn props))
          @ indent @ ''}'')\<close>

function ruleLines :: "'ctx Collaborators \<Rightarrow> Rule \<Rightarrow> string \<Rightarrow> string list"
  and thenLines :: "'ctx Collaborators \<Rightarrow> Rule \<Rightarrow> string \<Rightarrow> string list"
  and rulesLines :: "'ctx Collaborators \<Rightarrow> Rule list \<Rightarrow> string \<Rightarrow> string list" where
  \<open>ruleLines E rule indent =
     (if rule_rule rule = ''condition''
      then [indent
              @ (case rule_if rule of
                   Some expr \<Rightarrow> ''if ((await jexl.eval("'' @ expr @ ''", ctx))) {''
                 | None \<Rightarrow>
                     (case rule_if_not rule of
                        Some expr \<Rightarrow> ''if (!(await jexl.eval("'' @ expr @ ''", ctx))) {''
                      | None \<Rightarrow> ''''))]
           @ thenLines E rule (indent @ ''  '')
           @ (if rule_stop rule = Some True then [indent @ ''  return;''] else [])
           @ [indent @ ''}'']
      else thenLines E rule indent)\<close>
| \<open>thenLines E rule indent =
     (case then_record (rule_then rule) of
        Some rec \<Rightarrow>
          [indent @ ''yield '' @ propertyName E (event rec) @ ''(''
             @ mappingText (mapping rec) indent @ '');'']
      | None \<Rightarrow>
          (case then_execute (rule_then rule) of
             Some rs \<Rightarrow> rulesLines E rs indent
           | None \<Rightarrow> []))\<close>
| \<open>rulesLines E [] indent = []\<close>
| \<open>rulesLines E (r # rs) indent = ruleLines E r indent @ rulesLines E rs indent\<close>
  by pat_completeness auto

termination
proof (relation "measure (\<lambda>x. case x of
          Inl (E, r, i) \<Rightarrow> 3 * size r + 2
        | Inr (Inl (E, r, i)) \<Rightarrow> 3 * size r + 1
        | Inr (Inr (E, rs, i)) \<Rightarrow> 3 * size_list size rs)")
  fix E :: "'ctx Collaborators" and rule :: Rule and indent :: string and x2 :: "Rule list"
  assume "then_execute (rule_then rule) = Some x2"
  then have "size_list size x2 < size (rule_then rule)"
    by (cases "rule_then rule") auto
  also have "\<dots> < size rule"
    by (cases rule) auto
  finally show "(Inr (Inr (E, x2, indent)), Inr (Inl (E, rule, indent))) \<in> measure (\<lambda>x. case x of
          Inl (E, r, i) \<Rightarrow> 3 * size r + 2
        | Inr (Inl (E, r, i)) \<Rightarrow> 3 * size r + 1
        | Inr (Inr (E, rs, i)) \<Rightarrow> 3 * size_list size rs)"
    by simp
qed simp_all

definition thenDiagnostic ::
  "'ctx Collaborators \<Rightarrow> Node \<Rightarrow> 'ctx \<Rightarrow> Rule \<Rightarrow> CodyResponse option" where
  "thenDiagnostic E node ctx rule =
     (case then_record (rule_then rule) of
        Some rec \<Rightarrow> recordEventDiagnostic E node ctx rec rule
      | None \<Rightarrow>
          (case then_execute (rule_then rule) of
             Some rs \<Rightarrow> firstOwnDiagnostic E node ctx (rulesInOrder_list rs)
           | None \<Rightarrow> Some (unknownThen E rule)))"

subsection \<open>An aggregate and some rules\<close>

text \<open>
  Concrete inputs on which the functions are evaluated below: an aggregate
  \<^verbatim>\<open>Order\<close> of the service \<^verbatim>\<open>Shop\<close> with one event \<^verbatim>\<open>OrderPlaced\<close>, identifier
  forms that drop the blanks of a name, and rules of each shape.
\<close>

definition exampleCollaborators :: "unit Collaborators" where
  "exampleCollaborators =
     \<lparr>className = filter (\<lambda>ch. ch \<noteq> CHR '' ''),
      propertyName = filter (\<lambda>ch. ch \<noteq> CHR '' ''),
      detectService = (\<lambda>node ctx. Inr ''Shop''),
      getTargetsOfType = (\<lambda>node t b. Inr [\<lparr>getName = ''OrderPlaced'', getType = ''event''\<rparr>]),
      JSON_stringify = (\<lambda>rule. ''{}'')\<rparr>"

definition exampleAggregate :: Node where
  "exampleAggregate = \<lparr>getName = ''Order'', getType = ''aggregate''\<rparr>"

definition exampleRecord :: Rule where
  "exampleRecord =
     Rule ''always'' None None None
       (Then (Some \<lparr>event = ''Order Placed'', mapping = MappingString ''command''\<rparr>) None)"

definition exampleValidate :: Rule where
  "exampleValidate = Rule ''validate'' None None None (Then None None)"

definition exampleBare :: Rule where
  "exampleBare = Rule ''condition'' None None None (Then None None)"

definition exampleDotted :: Rule where
  "exampleDotted =
     Rule ''always'' None None None
       (Then (Some \<lparr>event = ''Foo.Bar'', mapping = MappingString ''command''\<rparr>) None)"

definition serviceError :: CodyResponse where
  "serviceError = \<lparr>cody = ''No service'', type = Error, details = None\<rparr>"

definition exampleInner :: Rule where
  "exampleInner =
     Rule ''condition'' None (Some ''open'') None
       (Then (Some \<lparr>event = ''OrderPlaced'',
                    mapping = PropMapping [(''id'', ''command.id''), (''total'', ''command.total'')]\<rparr>)
             None)"

definition exampleOuter :: Rule where
  "exampleOuter =
     Rule ''condition'' (Some ''paid'') None (Some True)
       (Then None (Some [exampleRecord, exampleInner]))"

definition exampleFailing :: Rule where
  "exampleFailing =
     Rule ''condition'' (Some ''paid'') None None
       (Then None (Some [exampleRecord, exampleDotted, exampleBare]))"

definition exampleShipped :: Rule where
  "exampleShipped =
     Rule ''condition'' (Some ''paid'') None None
       (Then (Some \<lparr>event = ''Order Shipped'', mapping = MappingString ''command''\<rparr>) None)"

section \<open>Properties of the functions\<close>

subsection \<open>Strings, events and mappings\<close>

lemma split_nonempty: "split c s \<noteq> []"
  by (induction s) (auto split: list.splits)

lemma length_split: "length (split c s) = Suc (count_list s c)"
  by (induction s) (auto split: list.splits simp: split_nonempty)

lemma split_dot_iff: "Suc 0 < length (split c s) \<longleftrightarrow> c \<in> set s"
  using count_list_0_iff[of s c] by (auto simp add: length_split)

lemma eventExists_fold:
  "fold (\<lambda>e found. if className E (getName e) = className E evt then True else found) events b
     \<longleftrightarrow> b \<or> (\<exists>e\<in>set events. className E (getName e) = className E evt)"
  by (induction events arbitrary: b) auto

lemma eventExists_iff:
  "eventExists E events evt \<longleftrightarrow> (\<exists>e\<in>set events. className E (getName e) = className E evt)"
  by (simp add: eventExists_def eventExists_fold)

lemma convertMapping_loop_eq:
  \<open>convertMapping_loop indent props propMap =
     propMap @ concat (map (\<lambda>(propName, expr).
        indent @ ''  "'' @ propName @ ''": '' @ wrapExpression expr @ '',\<newline>'') props)\<close>
  by (induction props arbitrary: propMap) auto

lemma fold_variableLine:
  "fold (\<lambda>variable lines. lines @ [variableLine indent variable]) vs ls
     = ls @ map (variableLine indent) vs"
  by (induction vs arbitrary: ls) simp_all

subsection \<open>The lines that a translation pushes\<close>

text \<open>
  Every function of the pipeline appends to the lines it is given, and neither its
  result nor what it appends depends on them.
\<close>

lemma convertThenRecordEvent_frame:
  "\<exists>res out. \<forall>ls. convertThenRecordEvent E node ctx rec rule ls indent = (res, ls @ out)"
proof -
  have "\<forall>ls. convertThenRecordEvent E node ctx rec rule ls indent =
      (fst (convertThenRecordEvent E node ctx rec rule [] indent),
       ls @ snd (convertThenRecordEvent E node ctx rec rule [] indent))"
    by (simp add: convertThenRecordEvent_def split: sum.splits)
  then show ?thesis by blast
qed

lemma convert_frame_ex:
  fixes lines :: "string list"
  shows "\<exists>res out. \<forall>ls. convertRule E n c r ls i = (res, ls @ out)"
    and "\<exists>res out. \<forall>ls. convertAlwaysRule E n c r ls i = (res, ls @ out)"
    and "\<exists>res out. \<forall>ls. convertConditionRule E n c r ls i = (res, ls @ out)"
    and "\<exists>res out. \<forall>ls. convertThen E n c r ls i = (res, ls @ out)"
    and "\<exists>res out. \<forall>ls. convertThenExecuteRules E n c rs r ls i = (res, ls @ out)"
proof (induction E n c r lines i and E n c r lines i and E n c r lines i and E n c r lines i
         and E n c rs r lines i
       rule: convertRule_convertAlwaysRule_convertConditionRule_convertThen_convertThenExecuteRules.induct)
  case (1 E aggregate ctx rule lines indent)
  show ?case
  proof (cases "rule_rule rule = ''always''")
    case True
    with "1.IH"(1) show ?thesis by simp
  next
    case False
    show ?thesis
    proof (cases "rule_rule rule = ''condition''")
      case True
      with False "1.IH"(2) show ?thesis by simp
    next
      case c: False
      have "\<forall>ls. convertRule E aggregate ctx rule ls indent = (Inl (unknownRuleType rule), ls @ [])"
        using False c by simp
      then show ?thesis by blast
    qed
  qed
next
  case (2 E aggregate ctx rule lines indent)
  then show ?case by simp
next
  case (3 E node ctx rule lines indent)
  show ?case
  proof (cases "case rule_if rule of
              Some e \<Rightarrow> Some (''if ('', e)
            | None \<Rightarrow> (case rule_if_not rule of Some e \<Rightarrow> Some (''if (!'', e) | None \<Rightarrow> None)")
    case None
    then have "\<forall>ls. convertConditionRule E node ctx rule ls indent = (Inl (noCondition E node rule), ls @ [])"
      by simp
    then show ?thesis by blast
  next
    case (Some p)
    obtain ic ex where p: "p = (ic, ex)" by (cases p)
    obtain res out where ih: "\<And>ls. convertThen E node ctx rule ls (indent @ ''  '') = (res, ls @ out)"
      using "3.IH"[OF Some p[symmetric]] by blast
    show ?thesis
    proof (cases res)
      case (Inl e)
      have "\<forall>ls. convertConditionRule E node ctx rule ls indent =
          (Inl e, ls @ ([indent @ ic @ ''('' @ wrapExpression ex @ '')) {''] @ out))"
        using Some p Inl by (simp add: ih del: convertThen.simps)
      then show ?thesis by blast
    next
      case (Inr b)
      have "\<forall>ls. convertConditionRule E node ctx rule ls indent =
          (Inr ReturnedTrue, ls @ ([indent @ ic @ ''('' @ wrapExpression ex @ '')) {''] @ out
             @ (if rule_stop rule = Some True then [indent @ ''  return;''] else [])
             @ [indent @ ''}'']))"
        using Some p Inr by (simp add: ih del: convertThen.simps)
      then show ?thesis by blast
    qed
  qed
next
  case (4 E node ctx rule lines indent)
  show ?case
  proof (cases "then_record (rule_then rule)")
    case (Some rec)
    obtain res out where
      "\<And>ls. convertThenRecordEvent E node ctx rec rule ls indent = (res, ls @ out)"
      using convertThenRecordEvent_frame[of E node ctx rec rule indent] by blast
    then have "\<forall>ls. convertThen E node ctx rule ls indent = (res, ls @ out)"
      using Some by simp
    then show ?thesis by blast
  next
    case None
    show ?thesis
    proof (cases "then_execute (rule_then rule)")
      case n: None
      have "\<forall>ls. convertThen E node ctx rule ls indent = (Inl (unknownThen E rule), ls @ [])"
        using None n by simp
      then show ?thesis by blast
    next
      case (Some rs)
      with None "4.IH"[OF None Some] show ?thesis by simp
    qed
  qed
next
  case (5 E node ctx rule lines indent)
  have "\<forall>ls. convertThenExecuteRules E node ctx [] rule ls indent = (Inr ReturnedTrue, ls @ [])"
    by simp
  then show ?case by blast
next
  case (6 E node ctx r rs rule lines indent)
  obtain res out where ih1: "\<And>ls. convertRule E node ctx r ls indent = (res, ls @ out)"
    using "6.IH"(1) by blast
  show ?case
  proof (cases res)
    case (Inl e)
    have "\<forall>ls. convertThenExecuteRules E node ctx (r # rs) rule ls indent = (Inl e, ls @ out)"
      using Inl by (simp add: ih1 del: convertRule.simps)
    then show ?thesis by blast
  next
    case (Inr b)
    have "(res, lines @ out) = convertRule E node ctx r lines indent"
      using ih1[of lines] by simp
    from "6.IH"(2)[OF this Inr]
    obtain res2 out2 where
      ih2: "\<And>ls. convertThenExecuteRules E node ctx rs rule ls indent = (res2, ls @ out2)"
      by blast
    have "\<forall>ls. convertThenExecuteRules E node ctx (r # rs) rule ls indent = (res2, ls @ (out @ out2))"
      using Inr by (simp add: ih1 ih2 del: convertRule.simps)
    then show ?thesis by blast
  qed
qed

declare convertRule.simps [simp del] convertAlwaysRule.simps [simp del]
  convertConditionRule.simps [simp del] convertThen.simps [simp del]

lemma convertRule_frame:
  "convertRule E n c r ls i =
     (fst (convertRule E n c r [] i), ls @ snd (convertRule E n c r [] i))"
proof -
  obtain res out where h: "\<And>ls. convertRule E n c r ls i = (res, ls @ out)"
    using convert_frame_ex(1)[of E n c r i] by blast
  show ?thesis
    by (simp only: h fst_conv snd_conv append_Nil)
qed

lemma convertThen_frame:
  "convertThen E n c r ls i =
     (fst (convertThen E n c r [] i), ls @ snd (convertThen E n c r [] i))"
proof -
  obtain res out where h: "\<And>ls. convertThen E n c r ls i = (res, ls @ out)"
    using convert_frame_ex(4)[of E n c r i] by blast
  show ?thesis
    by (simp only: h fst_conv snd_conv append_Nil)
qed

subsection \<open>Rules and actions\<close>

lemma convertRule_condition:
  "rule_rule rule = ''condition'' \<Longrightarrow>
   convertRule E n c rule lines i = convertConditionRule E n c rule lines i"
  by (simp add: convertRule.simps)

lemma convertRule_always:
  "rule_rule rule = ''always'' \<Longrightarrow>
   convertRule E n c rule lines i = convertThen E n c rule lines i"
  by (simp add: convertRule.simps convertAlwaysRule.simps)

lemma convertThen_record:
  "then_record (rule_then rule) = Some rec \<Longrightarrow>
   convertThen E node ctx rule lines indent = convertThenRecordEvent E node ctx rec rule lines indent"
  by (simp add: convertThen.simps)

lemma convertThen_execute:
  "then_record (rule_then rule) = None \<Longrightarrow> then_execute (rule_then rule) = Some rs \<Longrightarrow>
   convertThen E node ctx rule lines indent = convertThenExecuteRules E node ctx rs rule lines indent"
  by (simp add: convertThen.simps)

lemma convertThenRecordEvent_dot:
  assumes "CHR ''.'' \<in> set (event rec)"
  shows "convertThenRecordEvent E node ctx rec rule lines indent =
     (case detectService E node ctx of
        Inl err \<Rightarrow> (Inl err, lines)
      | Inr service \<Rightarrow> (Inl (dotInEventName E node rule service), lines))"
  using assms
  by (simp add: convertThenRecordEvent_def split_dot_iff split: sum.splits)

lemma convertConditionRule_None:
  assumes "rule_if rule = None" and "rule_if_not rule = None"
  shows "convertConditionRule E node ctx rule lines indent = (Inl (noCondition E node rule), lines)"
  using assms by (simp add: convertConditionRule.simps)

lemma convertConditionRule_eq:
  assumes "(case rule_if rule of
              Some e \<Rightarrow> Some (''if ('', e)
            | None \<Rightarrow> (case rule_if_not rule of Some e \<Rightarrow> Some (''if (!'', e) | None \<Rightarrow> None))
           = Some (ifCondition, expr)"
  shows "convertConditionRule E node ctx rule lines indent =
     (case fst (convertThen E node ctx rule [] (indent @ ''  '')) of
        Inl err \<Rightarrow>
          (Inl err,
           lines @ [indent @ ifCondition @ ''('' @ wrapExpression expr @ '')) {'']
             @ snd (convertThen E node ctx rule [] (indent @ ''  '')))
      | Inr _ \<Rightarrow>
          (Inr ReturnedTrue,
           lines @ [indent @ ifCondition @ ''('' @ wrapExpression expr @ '')) {'']
             @ snd (convertThen E node ctx rule [] (indent @ ''  ''))
             @ (if rule_stop rule = Some True then [indent @ ''  return;''] else [])
             @ [indent @ ''}'']))"
  apply (simp only: convertConditionRule.simps assms option.case prod.case)
  apply (subst convertThen_frame)
  apply (cases "fst (convertThen E node ctx rule [] (indent @ ''  ''))")
   apply simp_all
  done

lemma convertConditionRule_success:
  assumes "convertConditionRule E node ctx rule lines indent = (Inr s, out)"
  shows "\<exists>ifCondition expr s' body.
      (case rule_if rule of
         Some e \<Rightarrow> Some (''if ('', e)
       | None \<Rightarrow> (case rule_if_not rule of Some e \<Rightarrow> Some (''if (!'', e) | None \<Rightarrow> None))
        = Some (ifCondition, expr)
      \<and> convertThen E node ctx rule [] (indent @ ''  '') = (Inr s', body)
      \<and> s = ReturnedTrue
      \<and> out = lines @ [indent @ ifCondition @ ''('' @ wrapExpression expr @ '')) {''] @ body
                @ (if rule_stop rule = Some True then [indent @ ''  return;''] else [])
                @ [indent @ ''}'']"
proof (cases "case rule_if rule of
         Some e \<Rightarrow> Some (''if ('', e)
       | None \<Rightarrow> (case rule_if_not rule of Some e \<Rightarrow> Some (''if (!'', e) | None \<Rightarrow> None)")
  case None
  then have "convertConditionRule E node ctx rule lines indent = (Inl (noCondition E node rule), lines)"
    by (simp add: convertConditionRule.simps)
  with assms show ?thesis by simp
next
  case (Some p)
  obtain ifCondition expr where p: "p = (ifCondition, expr)" by (cases p)
  obtain res body where t: "convertThen E node ctx rule [] (indent @ ''  '') = (res, body)"
    by (cases "convertThen E node ctx rule [] (indent @ ''  '')")
  show ?thesis
  proof (cases res)
    case (Inl err)
    with assms Some p t show ?thesis
      by (simp add: convertConditionRule_eq)
  next
    case (Inr s')
    with assms Some p t show ?thesis
      by (simp add: convertConditionRule_eq)
  qed
qed

lemma convertConditionRule_header:
  assumes "(case rule_if rule of
              Some e \<Rightarrow> Some (''if ('', e)
            | None \<Rightarrow> (case rule_if_not rule of Some e \<Rightarrow> Some (''if (!'', e) | None \<Rightarrow> None))
           = Some (ifCondition, expr)"
  shows "\<exists>res rest. convertConditionRule E node ctx rule lines indent =
     (res, lines @ [indent @ ifCondition @ ''('' @ wrapExpression expr @ '')) {''] @ rest)"
  by (cases "fst (convertThen E node ctx rule [] (indent @ ''  ''))")
    (simp_all add: convertConditionRule_eq[OF assms])

subsection \<open>Rule lists\<close>

lemma firstDiagnostic_Nil: "firstDiagnostic E n c [] i = None"
  by (simp add: firstDiagnostic_def)

lemma firstDiagnostic_Cons:
  "firstDiagnostic E n c (r # rs) i =
     (case fst (convertRule E n c r [] i) of
        Inl err \<Rightarrow> Some err
      | Inr _ \<Rightarrow> firstDiagnostic E n c rs i)"
  by (simp add: firstDiagnostic_def isCodyError_def split: sum.splits)

lemma firstDiagnostic_append:
  assumes "firstDiagnostic E n c pre i = None"
  shows "firstDiagnostic E n c (pre @ rs) i = firstDiagnostic E n c rs i"
  using assms
proof (induction pre)
  case Nil
  then show ?case by simp
next
  case (Cons p pre)
  then show ?case
    by (simp add: firstDiagnostic_Cons split: sum.splits)
qed

lemma firstDiagnostic_None_iff:
  "firstDiagnostic E n c rs i = None \<longleftrightarrow>
     (\<forall>r \<in> set rs. \<not> isCodyError (fst (convertRule E n c r [] i)))"
  by (induction rs)
    (auto simp add: firstDiagnostic_Nil firstDiagnostic_Cons isCodyError_def split: sum.splits)

lemma convertThenExecuteRules_fst:
  "fst (convertThenExecuteRules E n c rs r ls i) =
     (case firstDiagnostic E n c rs i of Some err \<Rightarrow> Inl err | None \<Rightarrow> Inr ReturnedTrue)"
proof (induction rs arbitrary: ls)
  case Nil
  show ?case by (simp add: firstDiagnostic_Nil)
next
  case (Cons x xs)
  show ?case
    apply (simp only: convertThenExecuteRules.simps firstDiagnostic_Cons)
    apply (subst convertRule_frame)
    apply (cases "fst (convertRule E n c x [] i)")
     apply (simp_all add: Cons.IH)
    done
qed

lemma convertThenExecuteRules_snd:
  "firstDiagnostic E n c rs i = None \<Longrightarrow>
   snd (convertThenExecuteRules E n c rs r ls i) = ls @ concat (translationsOf E n c rs i)"
proof (induction rs arbitrary: ls)
  case Nil
  show ?case by (simp add: translationsOf_def)
next
  case (Cons x xs)
  from Cons.prems obtain b where b: "fst (convertRule E n c x [] i) = Inr b"
    and rest: "firstDiagnostic E n c xs i = None"
    by (auto simp add: firstDiagnostic_Cons split: sum.splits)
  show ?case
    apply (simp only: convertThenExecuteRules.simps)
    apply (subst convertRule_frame)
    apply (simp add: b Cons.IH[OF rest] translationsOf_def)
    done
qed

lemma convertRules_loop_fst:
  "fst (convertRules_loop E n c rs ls i) = firstDiagnostic E n c rs i"
proof (induction rs arbitrary: ls)
  case Nil
  show ?case by (simp add: firstDiagnostic_Nil)
next
  case (Cons x xs)
  show ?case
    apply (simp only: convertRules_loop.simps firstDiagnostic_Cons)
    apply (subst convertRule_frame)
    apply (cases "fst (convertRule E n c x [] i)")
     apply (simp_all add: Cons.IH)
    done
qed

lemma convertRules_loop_snd:
  "firstDiagnostic E n c rs i = None \<Longrightarrow>
   snd (convertRules_loop E n c rs ls i) = ls @ concat (map ((#) '''') (translationsOf E n c rs i))"
proof (induction rs arbitrary: ls)
  case Nil
  show ?case by (simp add: translationsOf_def)
next
  case (Cons x xs)
  from Cons.prems obtain b where b: "fst (convertRule E n c x [] i) = Inr b"
    and rest: "firstDiagnostic E n c xs i = None"
    by (auto simp add: firstDiagnostic_Cons split: sum.splits)
  show ?case
    apply (simp only: convertRules_loop.simps)
    apply (subst convertRule_frame)
    apply (simp add: b Cons.IH[OF rest] translationsOf_def)
    done
qed

lemma compile_eq:
  "convertRuleConfigToAggregateBehavior E n c rules vs i =
     (if rules = [] then Inr ''''
      else (case firstDiagnostic E n c rules i of
              Some err \<Rightarrow> Inl err
            | None \<Rightarrow> Inr (join ''\<newline>''
                ([i @ ''const ctx: any = {};''] @ map (variableLine i) vs
                  @ concat (map ((#) '''') (translationsOf E n c rules i)) @ ['''']))))"
proof (cases "rules = []")
  case True
  then show ?thesis by (simp add: convertRuleConfigToAggregateBehavior_def)
next
  case False
  let ?ls = "[i @ ''const ctx: any = {};''] @ map (variableLine i) vs"
  obtain d out where l: "convertRules_loop E n c rules ?ls i = (d, out)"
    by (cases "convertRules_loop E n c rules ?ls i")
  have d: "d = firstDiagnostic E n c rules i"
    using convertRules_loop_fst[of E n c rules ?ls i] l by simp
  show ?thesis
  proof (cases d)
    case None
    then have "out = ?ls @ concat (map ((#) '''') (translationsOf E n c rules i))"
      using convertRules_loop_snd[of E n c rules i ?ls] l d by simp
    then show ?thesis
      using False l d None
      by (simp add: convertRuleConfigToAggregateBehavior_def fold_variableLine)
  next
    case (Some e)
    then show ?thesis
      using False l d
      by (simp add: convertRuleConfigToAggregateBehavior_def fold_variableLine)
  qed
qed

lemma compile_fails_at:
  assumes "firstDiagnostic E n c pre i = None"
    and "fst (convertRule E n c r [] i) = Inl err"
  shows "convertRuleConfigToAggregateBehavior E n c (pre @ r # post) vs i = Inl err"
proof -
  have "firstDiagnostic E n c (pre @ r # post) i = Some err"
    using assms by (simp add: firstDiagnostic_append firstDiagnostic_Cons)
  then show ?thesis
    by (simp add: compile_eq)
qed

subsection \<open>The translations of the examples\<close>

lemmas example_defs = exampleCollaborators_def exampleAggregate_def exampleRecord_def
  exampleValidate_def exampleBare_def exampleDotted_def serviceError_def exampleInner_def exampleOuter_def

lemmas convert_simps = convertRule.simps convertAlwaysRule.simps convertConditionRule.simps
  convertThen.simps convertThenRecordEvent_def eventExists_def convertMapping_def
  wrapExpression_def forIn_def arrayIndex_def digitValue_def

lemma exampleRecord_lines:
  \<open>convertRule exampleCollaborators exampleAggregate () exampleRecord [] ''  ''
     = (Inr ReturnedUndefined, [''  yield OrderPlaced(await jexl.eval("command", ctx));''])\<close>
  by (simp add: convert_simps example_defs)

lemma exampleInner_lines:
  \<open>convertRule exampleCollaborators exampleAggregate () exampleInner [] ''  ''
     = (Inr ReturnedTrue,
        [''  if (!(await jexl.eval("open", ctx))) {'',
         ''    yield OrderPlaced({\<newline>      "id": await jexl.eval("command.id", ctx),\<newline>      "total": await jexl.eval("command.total", ctx),\<newline>    });'',
         ''  }''])\<close>
  by (simp add: convert_simps example_defs exampleInner_def)

lemma exampleOuter_lines:
  \<open>convertRule exampleCollaborators exampleAggregate () exampleOuter [] []
     = (Inr ReturnedTrue,
        [''if ((await jexl.eval("paid", ctx))) {'',
         ''  yield OrderPlaced(await jexl.eval("command", ctx));'',
         ''  if (!(await jexl.eval("open", ctx))) {'',
         ''    yield OrderPlaced({\<newline>      "id": await jexl.eval("command.id", ctx),\<newline>      "total": await jexl.eval("command.total", ctx),\<newline>    });'',
         ''  }'',
         ''  return;'',
         ''}''])\<close>
  by (simp add: convert_simps example_defs exampleInner_def exampleOuter_def)

subsection \<open>The compiler against the specification\<close>

declare rulesInOrder.simps [simp del] ruleLines.simps [simp del] thenLines.simps [simp del]

lemma firstOwnDiagnostic_Nil: "firstOwnDiagnostic E n c [] = None"
  by (simp add: firstOwnDiagnostic_def)

lemma firstOwnDiagnostic_Cons:
  "firstOwnDiagnostic E n c (r # rs) =
     (case ownDiagnostic E n c r of Some err \<Rightarrow> Some err | None \<Rightarrow> firstOwnDiagnostic E n c rs)"
  by (auto simp add: firstOwnDiagnostic_def split: option.splits)

lemma firstOwnDiagnostic_append:
  "firstOwnDiagnostic E n c (xs @ ys) =
     (case firstOwnDiagnostic E n c xs of
        Some err \<Rightarrow> Some err
      | None \<Rightarrow> firstOwnDiagnostic E n c ys)"
  by (induction xs) (simp_all add: firstOwnDiagnostic_Nil firstOwnDiagnostic_Cons split: option.splits)

lemma firstOwnDiagnostic_None_iff:
  "firstOwnDiagnostic E n c rs = None \<longleftrightarrow> (\<forall>r \<in> set rs. ownDiagnostic E n c r = None)"
  by (induction rs) (auto simp add: firstOwnDiagnostic_Nil firstOwnDiagnostic_Cons split: option.splits)

lemma firstOwnDiagnostic_first:
  assumes "\<forall>p \<in> set before. ownDiagnostic E n c p = None"
    and "ownDiagnostic E n c r = Some err"
  shows "firstOwnDiagnostic E n c (before @ r # after) = Some err"
  using assms
  by (simp add: firstOwnDiagnostic_append firstOwnDiagnostic_Cons
      firstOwnDiagnostic_None_iff[symmetric])

lemma firstOwnDiagnostic_Some:
  "firstOwnDiagnostic E n c rs = Some err \<Longrightarrow> \<exists>r \<in> set rs. ownDiagnostic E n c r = Some err"
  by (induction rs)
    (auto simp add: firstOwnDiagnostic_Nil firstOwnDiagnostic_Cons split: option.splits)

lemma convertMapping_text:
  "convertMapping node ctx m rule indent = Inr (mappingText m indent)"
  by (cases m) (simp_all add: convertMapping_def mappingText_def convertMapping_loop_eq
      wrapExpression_def)

lemma convertThenRecordEvent_spec:
  "convertThenRecordEvent E node ctx rec rule lines indent =
     (case recordEventDiagnostic E node ctx rec rule of
        Some err \<Rightarrow> (Inl err, lines)
      | None \<Rightarrow>
          (Inr ReturnedUndefined,
           lines @ [indent @ ''yield '' @ propertyName E (event rec) @ ''(''
                      @ mappingText (mapping rec) indent @ '');'']))"
  by (simp add: convertThenRecordEvent_def recordEventDiagnostic_def split_dot_iff
      eventExists_iff convertMapping_text split: sum.splits)

lemma firstOwnDiagnostic_rule:
  "firstOwnDiagnostic E n c (rulesInOrder rule) =
     (if rule_rule rule \<noteq> ''always'' \<and> rule_rule rule \<noteq> ''condition''
      then Some (unknownRuleType rule)
      else if rule_rule rule = ''condition'' \<and> rule_if rule = None \<and> rule_if_not rule = None
      then Some (noCondition E n rule)
      else thenDiagnostic E n c rule)"
  by (simp add: rulesInOrder.simps firstOwnDiagnostic_Cons firstOwnDiagnostic_Nil
      ownDiagnostic_def thenDiagnostic_def split: option.splits)

lemma refinement:
  "\<forall>i. (case firstOwnDiagnostic E n c (rulesInOrder rule) of
          Some err \<Rightarrow> fst (convertRule E n c rule [] i) = Inl err
        | None \<Rightarrow> (\<exists>s. convertRule E n c rule [] i = (Inr s, ruleLines E rule i)))"
  "\<forall>i. firstDiagnostic E n c rs i = firstOwnDiagnostic E n c (rulesInOrder_list rs)
      \<and> (firstOwnDiagnostic E n c (rulesInOrder_list rs) = None
           \<longrightarrow> concat (translationsOf E n c rs i) = rulesLines E rs i)"
proof (induction rule and rs rule: rulesInOrder_rulesInOrder_list.induct)
  case (1 rule)
  have t: "(case thenDiagnostic E n c rule of
              Some err \<Rightarrow> fst (convertThen E n c rule [] j) = Inl err
            | None \<Rightarrow> (\<exists>s. convertThen E n c rule [] j = (Inr s, thenLines E rule j)))" for j
  proof (cases "then_record (rule_then rule)")
    case (Some rec)
    then show ?thesis
      by (simp add: thenDiagnostic_def convertThen_record convertThenRecordEvent_spec
          thenLines.simps split: option.splits)
  next
    case None
    show ?thesis
    proof (cases "then_execute (rule_then rule)")
      case n: None
      with None show ?thesis
        by (simp add: thenDiagnostic_def convertThen.simps)
    next
      case (Some rs)
      from "1.IH"[OF None Some]
      have d: "firstDiagnostic E n c rs j = firstOwnDiagnostic E n c (rulesInOrder_list rs)"
        and l: "firstOwnDiagnostic E n c (rulesInOrder_list rs) = None
           \<Longrightarrow> concat (translationsOf E n c rs j) = rulesLines E rs j"
        by simp_all
      show ?thesis
      proof (cases "firstOwnDiagnostic E n c (rulesInOrder_list rs)")
        case n: None
        have "snd (convertThenExecuteRules E n c rs rule [] j) = rulesLines E rs j"
          using convertThenExecuteRules_snd[of E n c rs j rule "[]"] d n l by simp
        moreover have "fst (convertThenExecuteRules E n c rs rule [] j) = Inr ReturnedTrue"
          using convertThenExecuteRules_fst[of E n c rs rule "[]" j] d n by simp
        ultimately have "convertThenExecuteRules E n c rs rule [] j
            = (Inr ReturnedTrue, rulesLines E rs j)"
          by (simp add: prod_eq_iff)
        then show ?thesis
          using None Some n
          by (simp add: thenDiagnostic_def convertThen_execute thenLines.simps)
      next
        case (Some err)
        have "fst (convertThenExecuteRules E n c rs rule [] j) = Inl err"
          using convertThenExecuteRules_fst[of E n c rs rule "[]" j] d Some by simp
        then show ?thesis
          using None \<open>then_execute (rule_then rule) = Some rs\<close> Some
          by (simp add: thenDiagnostic_def convertThen_execute)
      qed
    qed
  qed
  show ?case
  proof
    fix i
    consider (unknown) "rule_rule rule \<noteq> ''always''" "rule_rule rule \<noteq> ''condition''"
      | (always) "rule_rule rule = ''always''"
      | (bare) "rule_rule rule = ''condition''" "rule_if rule = None" "rule_if_not rule = None"
      | (cond) "rule_rule rule = ''condition''" "rule_if rule \<noteq> None \<or> rule_if_not rule \<noteq> None"
      by blast
    then show "case firstOwnDiagnostic E n c (rulesInOrder rule) of
          Some err \<Rightarrow> fst (convertRule E n c rule [] i) = Inl err
        | None \<Rightarrow> (\<exists>s. convertRule E n c rule [] i = (Inr s, ruleLines E rule i))"
    proof cases
      case unknown
      then show ?thesis
        by (simp add: firstOwnDiagnostic_rule convertRule.simps)
    next
      case always
      then show ?thesis
        using t[of i]
        by (simp add: firstOwnDiagnostic_rule convertRule_always[OF always] ruleLines.simps
            split: option.splits)
    next
      case bare
      then show ?thesis
        by (simp add: firstOwnDiagnostic_rule convertRule_condition[OF bare(1)]
            convertConditionRule_None[OF bare(2,3)])
    next
      case cond
      then obtain ifCondition expr where
        h: "(case rule_if rule of
              Some e \<Rightarrow> Some (''if ('', e)
            | None \<Rightarrow> (case rule_if_not rule of Some e \<Rightarrow> Some (''if (!'', e) | None \<Rightarrow> None))
           = Some (ifCondition, expr)"
        by (cases "rule_if rule"; cases "rule_if_not rule") auto
      show ?thesis
        using cond h t[of "i @ ''  ''"]
        by (auto simp add: firstOwnDiagnostic_rule convertRule_condition[OF cond(1)]
            convertConditionRule_eq[OF h] ruleLines.simps wrapExpression_def
            split: option.splits sum.splits)
    qed
  qed
next
  case 2
  show ?case
    by (simp add: firstDiagnostic_Nil firstOwnDiagnostic_Nil translationsOf_def)
next
  case (3 r rs)
  show ?case
  proof
    fix i
    from "3.IH"(1) have p: "case firstOwnDiagnostic E n c (rulesInOrder r) of
          Some err \<Rightarrow> fst (convertRule E n c r [] i) = Inl err
        | None \<Rightarrow> (\<exists>s. convertRule E n c r [] i = (Inr s, ruleLines E r i))"
      by blast
    from "3.IH"(2) have q: "firstDiagnostic E n c rs i = firstOwnDiagnostic E n c (rulesInOrder_list rs)"
      "firstOwnDiagnostic E n c (rulesInOrder_list rs) = None
           \<Longrightarrow> concat (translationsOf E n c rs i) = rulesLines E rs i"
      by simp_all
    show "firstDiagnostic E n c (r # rs) i = firstOwnDiagnostic E n c (rulesInOrder_list (r # rs))
      \<and> (firstOwnDiagnostic E n c (rulesInOrder_list (r # rs)) = None
           \<longrightarrow> concat (translationsOf E n c (r # rs) i) = rulesLines E (r # rs) i)"
      using p q
      by (auto simp add: firstDiagnostic_Cons firstOwnDiagnostic_append translationsOf_def
          split: option.splits)
  qed
qed

lemma convertRule_translates:
  assumes "firstOwnDiagnostic E n c (rulesInOrder rule) = None"
  shows "\<exists>s. convertRule E n c rule [] i = (Inr s, ruleLines E rule i)"
  using refinement(1)[of E n c rule, THEN spec, of i] assms by simp

lemma convertRule_fails:
  assumes "firstOwnDiagnostic E n c (rulesInOrder rule) = Some err"
  shows "fst (convertRule E n c rule [] i) = Inl err"
  using refinement(1)[of E n c rule, THEN spec, of i] assms by simp

lemma firstDiagnostic_spec:
  "firstDiagnostic E n c rs i = firstOwnDiagnostic E n c (rulesInOrder_list rs)"
  using refinement(2)[of E n c rs, THEN spec, of i] by simp

lemma translationsOf_lines:
  "firstOwnDiagnostic E n c (rulesInOrder_list rules) = None \<Longrightarrow>
   translationsOf E n c rules i = map (\<lambda>r. ruleLines E r i) rules"
proof (induction rules)
  case Nil
  show ?case by (simp add: translationsOf_def)
next
  case (Cons r rs)
  from Cons.prems have a: "firstOwnDiagnostic E n c (rulesInOrder r) = None"
    and b: "firstOwnDiagnostic E n c (rulesInOrder_list rs) = None"
    by (simp_all add: firstOwnDiagnostic_append split: option.splits)
  from convertRule_translates[OF a, of i]
  obtain s where "convertRule E n c r [] i = (Inr s, ruleLines E r i)"
    by blast
  with Cons.IH[OF b] show ?case
    by (simp add: translationsOf_def)
qed

lemma compile_spec:
  "convertRuleConfigToAggregateBehavior E n c rules vs i =
     (if rules = [] then Inr ''''
      else (case firstOwnDiagnostic E n c (rulesInOrder_list rules) of
              Some err \<Rightarrow> Inl err
            | None \<Rightarrow> Inr (join ''\<newline>''
                ([i @ ''const ctx: any = {};''] @ map (variableLine i) vs
                  @ concat (map (\<lambda>r. '''' # ruleLines E r i) rules) @ ['''']))))"
proof (cases "firstOwnDiagnostic E n c (rulesInOrder_list rules)")
  case None
  then show ?thesis
    using translationsOf_lines[OF None, of i]
    by (simp add: compile_eq firstDiagnostic_spec comp_def)
next
  case (Some err)
  then show ?thesis
    by (simp add: compile_eq firstDiagnostic_spec)
qed

lemma compile_first:
  assumes "rulesInOrder_list rules = before @ r # after"
    and "\<forall>p \<in> set before. ownDiagnostic E n c p = None"
    and "ownDiagnostic E n c r = Some err"
  shows "convertRuleConfigToAggregateBehavior E n c rules vs i = Inl err"
proof -
  have "rules \<noteq> []"
    using assms(1) by auto
  moreover have "firstOwnDiagnostic E n c (rulesInOrder_list rules) = Some err"
    unfolding assms(1) by (rule firstOwnDiagnostic_first[OF assms(2,3)])
  ultimately show ?thesis
    by (simp add: compile_spec)
qed

lemma compile_fails_within:
  assumes "r \<in> set (rulesInOrder_list rules)" and "ownDiagnostic E n c r \<noteq> None"
  shows "\<exists>err. convertRuleConfigToAggregateBehavior E n c rules vs i = Inl err"
proof -
  have "rules \<noteq> []"
    using assms(1) by auto
  moreover have "firstOwnDiagnostic E n c (rulesInOrder_list rules) \<noteq> None"
    using assms by (auto simp add: firstOwnDiagnostic_None_iff)
  ultimately show ?thesis
    by (auto simp add: compile_spec)
qed

lemmas spec_simps = rulesInOrder.simps ownDiagnostic_def recordEventDiagnostic_def
  firstOwnDiagnostic_def

lemma exampleFailing_order:
  "rulesInOrder_list [exampleRecord, exampleFailing, exampleValidate]
     = [exampleRecord, exampleFailing, exampleRecord] @ exampleDotted # [exampleBare, exampleValidate]"
  by (simp add: rulesInOrder.simps exampleFailing_def exampleRecord_def exampleDotted_def
      exampleBare_def exampleValidate_def)

lemma exampleFailing_before:
  "\<forall>p \<in> set [exampleRecord, exampleFailing, exampleRecord].
     ownDiagnostic exampleCollaborators exampleAggregate () p = None"
  by (simp add: ownDiagnostic_def recordEventDiagnostic_def exampleFailing_def exampleRecord_def
      exampleCollaborators_def)

lemma exampleDotted_own:
  "ownDiagnostic exampleCollaborators exampleAggregate () exampleDotted
     = Some (dotInEventName exampleCollaborators exampleAggregate exampleDotted ''Shop'')"
  by (simp add: ownDiagnostic_def recordEventDiagnostic_def exampleDotted_def
      exampleCollaborators_def)

lemma ownDiagnostic_dotted:
  assumes "then_record (rule_then rule) = Some rec" and "CHR ''.'' \<in> set (event rec)"
  shows "ownDiagnostic E node ctx rule \<noteq> None"
  using assms
  by (simp add: ownDiagnostic_def recordEventDiagnostic_def split: sum.splits)

lemma ownDiagnostic_record:
  assumes "then_record (rule_then rule) = Some rec"
    and "rule_rule rule = ''always''
         \<or> rule_rule rule = ''condition'' \<and> (rule_if rule \<noteq> None \<or> rule_if_not rule \<noteq> None)"
  shows "ownDiagnostic E node ctx rule = recordEventDiagnostic E node ctx rec rule"
  using assms by (auto simp add: ownDiagnostic_def)

lemma count_list_insort_key:
  "count_list (insort_key f x xs) y = count_list (x # xs) y"
  by (induction xs) auto

lemma count_list_sort_key: "count_list (sort_key f xs) y = count_list xs y"
  by (induction xs) (simp_all add: count_list_insort_key)

lemma count_list_filter_split:
  "count_list (filter P xs) y + count_list (filter (\<lambda>x. \<not> P x) xs) y = count_list xs y"
  by (induction xs) auto

lemma count_list_forIn: "count_list (forIn props) p = count_list props p"
  using count_list_filter_split[of "\<lambda>p. arrayIndex (fst p) \<noteq> None" props p]
  by (simp add: forIn_def count_list_sort_key)

lemma forIn_no_index:
  assumes "\<forall>p \<in> set props. arrayIndex (fst p) = None"
  shows "forIn props = props"
proof -
  have "filter (\<lambda>p. arrayIndex (fst p) \<noteq> None) props = []"
    using assms by (auto simp add: filter_empty_conv)
  moreover have "filter (\<lambda>p. arrayIndex (fst p) = None) props = props"
    using assms by (simp add: filter_id_conv)
  ultimately show ?thesis
    by (simp add: forIn_def)
qed

lemma forIn_split:
  "\<exists>indexed. forIn props = indexed @ filter (\<lambda>p. arrayIndex (fst p) = None) props
     \<and> list_all (\<lambda>p. arrayIndex (fst p) \<noteq> None) indexed
     \<and> sorted (map (\<lambda>p. case arrayIndex (fst p) of Some n \<Rightarrow> n | None \<Rightarrow> 0) indexed)"
  by (rule exI[of _ "sort_key (\<lambda>p. case arrayIndex (fst p) of Some n \<Rightarrow> n | None \<Rightarrow> 0)
        (filter (\<lambda>p. arrayIndex (fst p) \<noteq> None) props)"])
    (simp add: forIn_def list_all_iff)

lemma exampleShipped_reached:
  "then_record (rule_then exampleShipped)
      = Some \<lparr>event = ''Order Shipped'', mapping = MappingString ''command''\<rparr>
   \<and> (rule_rule exampleShipped = ''always''
        \<or> rule_rule exampleShipped = ''condition''
           \<and> (rule_if exampleShipped \<noteq> None \<or> rule_if_not exampleShipped \<noteq> None))
   \<and> rulesInOrder_list [exampleRecord, exampleShipped] = [exampleRecord] @ exampleShipped # []
   \<and> (\<forall>p \<in> set [exampleRecord]. ownDiagnostic exampleCollaborators exampleAggregate () p = None)
   \<and> \<not> (\<exists>evt \<in> set [\<lparr>getName = ''OrderPlaced'', getType = ''event''\<rparr>].
          className exampleCollaborators (getName evt)
            = className exampleCollaborators
                (event \<lparr>event = ''Order Shipped'', mapping = MappingString ''command''\<rparr>))"
  by (simp add: rulesInOrder.simps ownDiagnostic_def recordEventDiagnostic_def exampleShipped_def
      exampleRecord_def exampleCollaborators_def)

lemma exampleRecord_alone:
  "then_record (rule_then exampleRecord)
      = Some \<lparr>event = ''Order Placed'', mapping = MappingString ''command''\<rparr>
   \<and> (rule_rule exampleRecord = ''always''
        \<or> rule_rule exampleRecord = ''condition''
           \<and> (rule_if exampleRecord \<noteq> None \<or> rule_if_not exampleRecord \<noteq> None))
   \<and> exampleRecord \<in> set (rulesInOrder_list [exampleRecord])
   \<and> (\<forall>p \<in> set (rulesInOrder_list [exampleRecord]).
         p \<noteq> exampleRecord \<longrightarrow> ownDiagnostic exampleCollaborators exampleAggregate () p = None)"
  by (simp add: rulesInOrder.simps exampleRecord_def)

section \<open>The claims\<close>

text \<open>
  Claim C1. Whatever the node, the context and the initial variables, the
  compiler called with no rules returns the empty block: the empty string, so
  neither the declaration of the namespace nor an assignment of a variable is
  emitted.
\<close>

theorem C1_empty_rules:
  "convertRuleConfigToAggregateBehavior E aggregate ctx [] initialVariables indent = Inr ''''"
  by (simp add: convertRuleConfigToAggregateBehavior_def)

text \<open>
  Claim C2. The compiler returns either the whole generated block or exactly
  one diagnostic: the own diagnostic of the first rule, in list and recursion
  order, that has one, whatever follows that rule, and then nothing of what had
  been generated. When no rule has a diagnostic, the result is the declaration
  of the namespace, the assignments, and a blank line and the lines of every
  rule, joined by newlines. The loop over a nested rule list stops at the first
  diagnostic in the same way.
\<close>

theorem C2_fail_fast:
  "convertRuleConfigToAggregateBehavior E aggregate ctx rules initialVariables indent =
     (if rules = [] then Inr ''''
      else (case firstOwnDiagnostic E aggregate ctx (rulesInOrder_list rules) of
              Some err \<Rightarrow> Inl err
            | None \<Rightarrow> Inr (join ''\<newline>''
                ([indent @ ''const ctx: any = {};''] @ map (variableLine indent) initialVariables
                  @ concat (map (\<lambda>r. '''' # ruleLines E r indent) rules) @ ['''']))))
   \<and> (rulesInOrder_list rules = before @ r # after
        \<and> (\<forall>p \<in> set before. ownDiagnostic E aggregate ctx p = None)
        \<and> ownDiagnostic E aggregate ctx r = Some err \<longrightarrow>
      convertRuleConfigToAggregateBehavior E aggregate ctx rules initialVariables indent = Inl err)
   \<and> fst (convertThenExecuteRules E aggregate ctx nested rule lines indent) =
       (case firstOwnDiagnostic E aggregate ctx (rulesInOrder_list nested) of
          Some err \<Rightarrow> Inl err
        | None \<Rightarrow> Inr ReturnedTrue)"
proof (intro conjI impI)
  show "convertRuleConfigToAggregateBehavior E aggregate ctx rules initialVariables indent =
     (if rules = [] then Inr ''''
      else (case firstOwnDiagnostic E aggregate ctx (rulesInOrder_list rules) of
              Some err \<Rightarrow> Inl err
            | None \<Rightarrow> Inr (join ''\<newline>''
                ([indent @ ''const ctx: any = {};''] @ map (variableLine indent) initialVariables
                  @ concat (map (\<lambda>r. '''' # ruleLines E r indent) rules) @ ['''']))))"
    by (rule compile_spec)
next
  assume "rulesInOrder_list rules = before @ r # after
        \<and> (\<forall>p \<in> set before. ownDiagnostic E aggregate ctx p = None)
        \<and> ownDiagnostic E aggregate ctx r = Some err"
  then show "convertRuleConfigToAggregateBehavior E aggregate ctx rules initialVariables indent
      = Inl err"
    by (simp add: compile_first)
next
  show "fst (convertThenExecuteRules E aggregate ctx nested rule lines indent) =
       (case firstOwnDiagnostic E aggregate ctx (rulesInOrder_list nested) of
          Some err \<Rightarrow> Inl err
        | None \<Rightarrow> Inr ReturnedTrue)"
    by (simp add: convertThenExecuteRules_fst firstDiagnostic_spec)
qed

theorem C2_fail_fast_witness:
  "convertRuleConfigToAggregateBehavior exampleCollaborators exampleAggregate ()
        [exampleRecord, exampleFailing, exampleValidate] [] ''  ''
     = Inl (dotInEventName exampleCollaborators exampleAggregate exampleDotted ''Shop'')
   \<and> fst (convertThenExecuteRules exampleCollaborators exampleAggregate ()
        [exampleRecord, exampleBare, exampleValidate] exampleOuter [] ''  '')
     = Inl (noCondition exampleCollaborators exampleAggregate exampleBare)"
  using C2_fail_fast[of exampleCollaborators exampleAggregate "()"
      "[exampleRecord, exampleFailing, exampleValidate]" "[]" "''  ''"
      "[exampleRecord, exampleFailing, exampleRecord]" exampleDotted
      "[exampleBare, exampleValidate]"
      "dotInEventName exampleCollaborators exampleAggregate exampleDotted ''Shop''"
      "[exampleRecord, exampleBare, exampleValidate]" exampleOuter "[]"]
    exampleFailing_order exampleFailing_before exampleDotted_own
  by (simp add: spec_simps exampleRecord_def exampleBare_def exampleValidate_def
      exampleCollaborators_def)

text \<open>
  Claim C3. A condition rule with neither \<^verbatim>\<open>if\<close> nor \<^verbatim>\<open>if_not\<close> makes
  the compiler return a diagnostic, as a value of type \<^verbatim>\<open>Error\<close>: its message quotes
  the rule as \<^verbatim>\<open>JSON.stringify\<close> prints it and its details name the type and the name of
  the node. The translation of the rule pushes no line, and the compiler, which
  reaches the rule when the rules before it translate, returns the diagnostic
  alone.
\<close>

theorem C3_condition_without_if:
  assumes "rule_rule rule = ''condition''"
    and "rule_if rule = None" and "rule_if_not rule = None"
    and "\<forall>p \<in> set pre. \<not> isCodyError (fst (convertRule E node ctx p [] indent))"
  shows \<open>convertRuleConfigToAggregateBehavior E node ctx (pre @ rule # post) initialVariables indent
           = Inl (noCondition E node rule)
     \<and> convertRule E node ctx rule lines indent = (Inl (noCondition E node rule), lines)
     \<and> type (noCondition E node rule) = Error
     \<and> cody (noCondition E node rule) =
         ''I don't know how to handle a condition rule that neither has an "if" nor a "if_not" condition defined: "''
           @ JSON_stringify E rule @ ''".''
     \<and> details (noCondition E node rule) =
         Some (''Looks like a mistake on your side. Please check the rules of ''
           @ getType node @ '': "'' @ getName node @ ''"'')\<close>
proof -
  have r: "\<And>ls. convertRule E node ctx rule ls indent = (Inl (noCondition E node rule), ls)"
    using assms(1-3) by (simp add: convertRule_condition convertConditionRule_None)
  have p: "firstDiagnostic E node ctx pre indent = None"
    using assms(4) by (simp add: firstDiagnostic_None_iff)
  have "convertRuleConfigToAggregateBehavior E node ctx (pre @ rule # post) initialVariables indent
           = Inl (noCondition E node rule)"
    by (rule compile_fails_at[OF p]) (simp add: r)
  then show ?thesis
    by (simp add: r noCondition_def)
qed

theorem C3_condition_without_if_witness:
  \<open>convertRuleConfigToAggregateBehavior exampleCollaborators exampleAggregate ()
        ([exampleRecord] @ exampleBare # [exampleValidate]) [] ''  ''
     = Inl (noCondition exampleCollaborators exampleAggregate exampleBare)
   \<and> details (noCondition exampleCollaborators exampleAggregate exampleBare)
     = Some ''Looks like a mistake on your side. Please check the rules of aggregate: "Order"''\<close>
proof -
  have "\<forall>p \<in> set [exampleRecord].
      \<not> isCodyError (fst (convertRule exampleCollaborators exampleAggregate () p [] ''  ''))"
    by (simp add: isCodyError_def exampleRecord_lines)
  from C3_condition_without_if[OF _ _ _ this, of exampleBare]
  show ?thesis
    by (simp add: exampleBare_def exampleAggregate_def)
qed

text \<open>
  Claim C4, as the code has it. A rule whose kind is neither \<^verbatim>\<open>always\<close> nor
  \<^verbatim>\<open>condition\<close> makes \<^verbatim>\<open>convertRule\<close> fail with a diagnostic that quotes the kind;
  the kinds that its details list are \<^verbatim>\<open>always\<close>, \<^verbatim>\<open>condition\<close> and \<^verbatim>\<open>validate\<close>.
\<close>

theorem C4_unknown_rule_kind:
  assumes "rule_rule rule \<noteq> ''always''" and "rule_rule rule \<noteq> ''condition''"
  shows \<open>\<exists>err d. convertRule E aggregate ctx rule lines indent = (Inl err, lines)
       \<and> type err = Error
       \<and> cody err = ''I don't know how to handle a rule of type "'' @ rule_rule rule @ ''".''
       \<and> details err = Some d
       \<and> d = ''Looks like a typo on your side. I can handle the following rule types: always, condition, validate''
       \<and> kindsListed d = [''always'', ''condition'', ''validate'']\<close>
proof -
  have "convertRule E aggregate ctx rule lines indent = (Inl (unknownRuleType rule), lines)"
    using assms by (simp add: convertRule.simps)
  moreover have "kindsListed ''Looks like a typo on your side. I can handle the following rule types: always, condition, validate''
      = [''always'', ''condition'', ''validate'']"
    by (simp add: kindsListed_def)
  ultimately show ?thesis
    by (simp add: unknownRuleType_def)
qed

theorem C4_unknown_rule_kind_witness:
  \<open>\<exists>err d. convertRule exampleCollaborators exampleAggregate () exampleValidate [] [] = (Inl err, [])
       \<and> type err = Error
       \<and> cody err = ''I don't know how to handle a rule of type "validate".''
       \<and> details err = Some d
       \<and> d = ''Looks like a typo on your side. I can handle the following rule types: always, condition, validate''
       \<and> kindsListed d = [''always'', ''condition'', ''validate'']\<close>
  using C4_unknown_rule_kind[of exampleValidate exampleCollaborators exampleAggregate "()" "[]" "[]"]
  by (simp add: exampleValidate_def)

text \<open>
  The details do not list exactly \<^verbatim>\<open>always\<close> and \<^verbatim>\<open>condition\<close>: for a rule of
  kind \<^verbatim>\<open>validate\<close> the list that is returned has three kinds.
\<close>

theorem C4_counterexample:
  "\<not> (\<exists>err lines d.
        convertRule exampleCollaborators exampleAggregate () exampleValidate [] [] = (Inl err, lines)
        \<and> details err = Some d \<and> kindsListed d = [''always'', ''condition''])"
  by (simp add: convert_simps unknownRuleType_def kindsListed_def example_defs)

text \<open>
  Claim C5, as the code has it. A rule list in which some rule records an
  event whose name contains a dot is never compiled: the compiler returns a
  diagnostic, whatever the targets of the aggregate and the rest of the graph
  are. When the compiler reaches the action (the rule has a known kind and, as
  a condition rule, a condition, and no rule before it in list and recursion
  order has a diagnostic), the service is resolved first: the diagnostic is the
  one of the resolver when that fails, and otherwise the one about the dot,
  which tells the service and the name of the aggregate. The lookup of the
  targets plays no role in the translation of the action.
\<close>

theorem C5_dotted_event_name:
  assumes "then_record (rule_then rule) = Some rec"
    and "CHR ''.'' \<in> set (event rec)"
  shows "convertThenRecordEvent (E\<lparr>getTargetsOfType := targets\<rparr>) node ctx rec rule lines indent =
           (case detectService E node ctx of
              Inl err \<Rightarrow> (Inl err, lines)
            | Inr service \<Rightarrow> (Inl (dotInEventName E node rule service), lines))
     \<and> (rule \<in> set (rulesInOrder_list rules) \<longrightarrow>
          (\<exists>err. convertRuleConfigToAggregateBehavior (E\<lparr>getTargetsOfType := targets\<rparr>) node ctx
                    rules initialVariables indent = Inl err))
     \<and> (rulesInOrder_list rules = before @ rule # after
          \<and> (\<forall>p \<in> set before. ownDiagnostic E node ctx p = None)
          \<and> (rule_rule rule = ''always''
               \<or> rule_rule rule = ''condition''
                  \<and> (rule_if rule \<noteq> None \<or> rule_if_not rule \<noteq> None)) \<longrightarrow>
        convertRuleConfigToAggregateBehavior E node ctx rules initialVariables indent =
           (case detectService E node ctx of
              Inl err \<Rightarrow> Inl err
            | Inr service \<Rightarrow> Inl (dotInEventName E node rule service)))"
proof (intro conjI impI)
  show "convertThenRecordEvent (E\<lparr>getTargetsOfType := targets\<rparr>) node ctx rec rule lines indent =
           (case detectService E node ctx of
              Inl err \<Rightarrow> (Inl err, lines)
            | Inr service \<Rightarrow> (Inl (dotInEventName E node rule service), lines))"
    using convertThenRecordEvent_dot[OF assms(2), of "E\<lparr>getTargetsOfType := targets\<rparr>"
        node ctx rule lines indent]
    by (simp add: dotInEventName_def split: sum.splits)
next
  assume "rule \<in> set (rulesInOrder_list rules)"
  then show "\<exists>err. convertRuleConfigToAggregateBehavior (E\<lparr>getTargetsOfType := targets\<rparr>)
      node ctx rules initialVariables indent = Inl err"
    by (rule compile_fails_within) (rule ownDiagnostic_dotted[OF assms])
next
  assume h: "rulesInOrder_list rules = before @ rule # after
          \<and> (\<forall>p \<in> set before. ownDiagnostic E node ctx p = None)
          \<and> (rule_rule rule = ''always''
               \<or> rule_rule rule = ''condition''
                  \<and> (rule_if rule \<noteq> None \<or> rule_if_not rule \<noteq> None))"
  then have "ownDiagnostic E node ctx rule = recordEventDiagnostic E node ctx rec rule"
    using ownDiagnostic_record[OF assms(1), of E node ctx] by simp
  then have "ownDiagnostic E node ctx rule =
      Some (case detectService E node ctx of
              Inl err \<Rightarrow> err | Inr service \<Rightarrow> dotInEventName E node rule service)"
    using assms(2) by (simp add: recordEventDiagnostic_def split: sum.splits)
  with h have "convertRuleConfigToAggregateBehavior E node ctx rules initialVariables indent =
      Inl (case detectService E node ctx of
              Inl err \<Rightarrow> err | Inr service \<Rightarrow> dotInEventName E node rule service)"
    using compile_first[of rules before rule after E node ctx] by blast
  then show "convertRuleConfigToAggregateBehavior E node ctx rules initialVariables indent =
           (case detectService E node ctx of
              Inl err \<Rightarrow> Inl err
            | Inr service \<Rightarrow> Inl (dotInEventName E node rule service))"
    by (simp split: sum.splits)
qed

theorem C5_dotted_event_name_witness:
  "convertRuleConfigToAggregateBehavior exampleCollaborators exampleAggregate ()
      [exampleRecord, exampleFailing, exampleValidate] [] ''  ''
     = Inl (dotInEventName exampleCollaborators exampleAggregate exampleDotted ''Shop'')
   \<and> (\<exists>err. convertRuleConfigToAggregateBehavior
        (exampleCollaborators\<lparr>getTargetsOfType := (\<lambda>node t b. Inr [])\<rparr>)
        exampleAggregate () [exampleRecord, exampleFailing, exampleValidate] [] ''  '' = Inl err)"
proof -
  have r: "then_record (rule_then exampleDotted)
      = Some \<lparr>event = ''Foo.Bar'', mapping = MappingString ''command''\<rparr>"
    and k: "rule_rule exampleDotted = ''always''"
    by (simp_all add: exampleDotted_def)
  have d: "CHR ''.'' \<in> set (event \<lparr>event = ''Foo.Bar'', mapping = MappingString ''command''\<rparr>)"
    by simp
  have m: "exampleDotted \<in> set (rulesInOrder_list [exampleRecord, exampleFailing, exampleValidate])"
    unfolding exampleFailing_order by simp
  note t = C5_dotted_event_name[OF r d, where E = exampleCollaborators
        and targets = "\<lambda>node t b. Inr []" and node = exampleAggregate and ctx = "()"
        and lines = "[]" and indent = "''  ''" and initialVariables = "[]"
        and rules = "[exampleRecord, exampleFailing, exampleValidate]"
        and before = "[exampleRecord, exampleFailing, exampleRecord]"
        and after = "[exampleBare, exampleValidate]"]
  have a: "\<exists>err. convertRuleConfigToAggregateBehavior
        (exampleCollaborators\<lparr>getTargetsOfType := (\<lambda>node t b. Inr [])\<rparr>)
        exampleAggregate () [exampleRecord, exampleFailing, exampleValidate] [] ''  '' = Inl err"
    by (rule mp[OF t[THEN conjunct2, THEN conjunct1] m])
  have "convertRuleConfigToAggregateBehavior exampleCollaborators exampleAggregate ()
      [exampleRecord, exampleFailing, exampleValidate] [] ''  ''
     = (case detectService exampleCollaborators exampleAggregate () of
          Inl err \<Rightarrow> Inl err
        | Inr service \<Rightarrow>
            Inl (dotInEventName exampleCollaborators exampleAggregate exampleDotted service))"
    by (rule mp[OF t[THEN conjunct2, THEN conjunct2]])
      (simp add: exampleFailing_order exampleFailing_before k
        del: rulesInOrder_list.simps)
  moreover have "detectService exampleCollaborators exampleAggregate () = Inr ''Shop''"
    by (simp add: exampleCollaborators_def)
  ultimately show ?thesis
    using a by simp
qed

text \<open>
  The diagnostic is not the one about the dot for every state of the graph:
  when the service of the aggregate cannot be resolved, the compiler returns
  the diagnostic of the resolver.
\<close>

theorem C5_counterexample:
  "\<not> (\<exists>service.
        convertRuleConfigToAggregateBehavior
          (exampleCollaborators\<lparr>detectService := (\<lambda>node ctx. Inl serviceError)\<rparr>)
          exampleAggregate () [exampleDotted] [] ''  ''
        = Inl (dotInEventName
                 (exampleCollaborators\<lparr>detectService := (\<lambda>node ctx. Inl serviceError)\<rparr>)
                 exampleAggregate exampleDotted service))"
proof -
  have "convertRuleConfigToAggregateBehavior
          (exampleCollaborators\<lparr>detectService := (\<lambda>node ctx. Inl serviceError)\<rparr>)
          exampleAggregate () [exampleDotted] [] ''  '' = Inl serviceError"
    by (simp add: convertRuleConfigToAggregateBehavior_def convert_simps example_defs)
  then show ?thesis
    by (simp add: dotInEventName_def serviceError_def)
qed

text \<open>
  Claim C6, as the code has it. When the service is resolved, the name of the
  event has no dot and the lookup of the targets succeeds, the event is
  searched among the targets by comparing the \<^verbatim>\<open>className\<close> forms of the names:
  if one target matches, the \<^verbatim>\<open>yield\<close> statement is pushed, and otherwise the
  action fails with the diagnostic that the event is not known for the
  aggregate, so that this diagnostic is returned if and only if no target
  matches. When the compiler reaches the action and no target matches, it
  returns that diagnostic. When no other rule of the input has a diagnostic,
  the compiler returns that diagnostic if and only if no target matches, and
  it returns a block if and only if one does.
\<close>

theorem C6_event_among_targets:
  assumes "detectService E node ctx = Inr service"
    and "CHR ''.'' \<notin> set (event rec)"
    and "getTargetsOfType E node ''event'' True = Inr events"
  shows "\<exists>m. convertMapping node ctx (mapping rec) rule indent = Inr m
     \<and> convertThenRecordEvent E node ctx rec rule lines indent =
        (if \<exists>evt \<in> set events. className E (getName evt) = className E (event rec)
         then (Inr ReturnedUndefined,
               lines @ [indent @ ''yield '' @ propertyName E (event rec) @ ''('' @ m @ '');''])
         else (Inl (eventNotKnown E node rule (event rec)), lines))
     \<and> (fst (convertThenRecordEvent E node ctx rec rule lines indent)
           = Inl (eventNotKnown E node rule (event rec))
         \<longleftrightarrow> \<not> (\<exists>evt \<in> set events. className E (getName evt) = className E (event rec)))
     \<and> (then_record (rule_then rule) = Some rec
          \<and> (rule_rule rule = ''always''
               \<or> rule_rule rule = ''condition''
                  \<and> (rule_if rule \<noteq> None \<or> rule_if_not rule \<noteq> None))
          \<and> rulesInOrder_list rules = before @ rule # after
          \<and> (\<forall>p \<in> set before. ownDiagnostic E node ctx p = None)
          \<and> \<not> (\<exists>evt \<in> set events. className E (getName evt) = className E (event rec)) \<longrightarrow>
        convertRuleConfigToAggregateBehavior E node ctx rules initialVariables indent
          = Inl (eventNotKnown E node rule (event rec)))
     \<and> (then_record (rule_then rule) = Some rec
          \<and> (rule_rule rule = ''always''
               \<or> rule_rule rule = ''condition''
                  \<and> (rule_if rule \<noteq> None \<or> rule_if_not rule \<noteq> None))
          \<and> rule \<in> set (rulesInOrder_list rules)
          \<and> (\<forall>p \<in> set (rulesInOrder_list rules). p \<noteq> rule \<longrightarrow> ownDiagnostic E node ctx p = None) \<longrightarrow>
        (convertRuleConfigToAggregateBehavior E node ctx rules initialVariables indent
           = Inl (eventNotKnown E node rule (event rec))
         \<longleftrightarrow> \<not> (\<exists>evt \<in> set events. className E (getName evt) = className E (event rec)))
        \<and> ((\<exists>out. convertRuleConfigToAggregateBehavior E node ctx rules initialVariables indent
                    = Inr out)
           \<longleftrightarrow> (\<exists>evt \<in> set events. className E (getName evt) = className E (event rec))))"
proof -
  obtain m where m: "convertMapping node ctx (mapping rec) rule indent = Inr m"
    by (cases "mapping rec") (simp_all add: convertMapping_def)
  have a: "\<And>ls. convertThenRecordEvent E node ctx rec rule ls indent =
        (if \<exists>evt \<in> set events. className E (getName evt) = className E (event rec)
         then (Inr ReturnedUndefined,
               ls @ [indent @ ''yield '' @ propertyName E (event rec) @ ''('' @ m @ '');''])
         else (Inl (eventNotKnown E node rule (event rec)), ls))"
    using assms m
    by (simp add: convertThenRecordEvent_def split_dot_iff eventExists_iff)
  have d: "recordEventDiagnostic E node ctx rec rule =
      (if \<exists>evt \<in> set events. className E (getName evt) = className E (event rec) then None
       else Some (eventNotKnown E node rule (event rec)))"
    using assms by (simp add: recordEventDiagnostic_def)
  have c: "convertRuleConfigToAggregateBehavior E node ctx rules initialVariables indent
          = Inl (eventNotKnown E node rule (event rec))"
    if h: "then_record (rule_then rule) = Some rec"
      "rule_rule rule = ''always''
         \<or> rule_rule rule = ''condition'' \<and> (rule_if rule \<noteq> None \<or> rule_if_not rule \<noteq> None)"
      "rulesInOrder_list rules = before @ rule # after"
      "\<forall>p \<in> set before. ownDiagnostic E node ctx p = None"
      "\<not> (\<exists>evt \<in> set events. className E (getName evt) = className E (event rec))"
  proof -
    have "ownDiagnostic E node ctx rule = Some (eventNotKnown E node rule (event rec))"
      using ownDiagnostic_record[OF h(1,2), of E node ctx] d h(5) by simp
    then show ?thesis
      by (rule compile_first[OF h(3,4)])
  qed
  have e: "(convertRuleConfigToAggregateBehavior E node ctx rules initialVariables indent
           = Inl (eventNotKnown E node rule (event rec))
         \<longleftrightarrow> \<not> (\<exists>evt \<in> set events. className E (getName evt) = className E (event rec)))
        \<and> ((\<exists>out. convertRuleConfigToAggregateBehavior E node ctx rules initialVariables indent
                    = Inr out)
           \<longleftrightarrow> (\<exists>evt \<in> set events. className E (getName evt) = className E (event rec)))"
    if h: "then_record (rule_then rule) = Some rec"
      "rule_rule rule = ''always''
         \<or> rule_rule rule = ''condition'' \<and> (rule_if rule \<noteq> None \<or> rule_if_not rule \<noteq> None)"
      "rule \<in> set (rulesInOrder_list rules)"
      "\<forall>p \<in> set (rulesInOrder_list rules). p \<noteq> rule \<longrightarrow> ownDiagnostic E node ctx p = None"
  proof (cases "\<exists>evt \<in> set events. className E (getName evt) = className E (event rec)")
    case True
    have o: "ownDiagnostic E node ctx rule = None"
      using ownDiagnostic_record[OF h(1,2), of E node ctx] d True by simp
    have "firstOwnDiagnostic E node ctx (rulesInOrder_list rules) = None"
      unfolding firstOwnDiagnostic_None_iff using h(4) o by auto
    moreover have "rules \<noteq> []"
      using h(3) by auto
    ultimately show ?thesis
      using True by (simp add: compile_spec)
  next
    case False
    have o: "ownDiagnostic E node ctx rule = Some (eventNotKnown E node rule (event rec))"
      using ownDiagnostic_record[OF h(1,2), of E node ctx] d False by simp
    have n: "rules \<noteq> []"
      using h(3) by auto
    have "firstOwnDiagnostic E node ctx (rulesInOrder_list rules) \<noteq> None"
      using h(3) o by (auto simp add: firstOwnDiagnostic_None_iff)
    then obtain err where f: "firstOwnDiagnostic E node ctx (rulesInOrder_list rules) = Some err"
      by blast
    from firstOwnDiagnostic_Some[OF f] obtain p where
      "p \<in> set (rulesInOrder_list rules)" "ownDiagnostic E node ctx p = Some err"
      by blast
    with h(4) o have "err = eventNotKnown E node rule (event rec)"
      by (cases "p = rule") auto
    with f n False show ?thesis
      by (simp add: compile_spec)
  qed
  show ?thesis
  proof (intro exI[of _ m] conjI impI)
    show "convertMapping node ctx (mapping rec) rule indent = Inr m"
      by (rule m)
  next
    show "convertThenRecordEvent E node ctx rec rule lines indent =
        (if \<exists>evt \<in> set events. className E (getName evt) = className E (event rec)
         then (Inr ReturnedUndefined,
               lines @ [indent @ ''yield '' @ propertyName E (event rec) @ ''('' @ m @ '');''])
         else (Inl (eventNotKnown E node rule (event rec)), lines))"
      by (rule a)
  next
    show "fst (convertThenRecordEvent E node ctx rec rule lines indent)
           = Inl (eventNotKnown E node rule (event rec))
         \<longleftrightarrow> \<not> (\<exists>evt \<in> set events. className E (getName evt) = className E (event rec))"
      by (simp add: a)
  next
    assume "then_record (rule_then rule) = Some rec
          \<and> (rule_rule rule = ''always''
               \<or> rule_rule rule = ''condition''
                  \<and> (rule_if rule \<noteq> None \<or> rule_if_not rule \<noteq> None))
          \<and> rulesInOrder_list rules = before @ rule # after
          \<and> (\<forall>p \<in> set before. ownDiagnostic E node ctx p = None)
          \<and> \<not> (\<exists>evt \<in> set events. className E (getName evt) = className E (event rec))"
    then show "convertRuleConfigToAggregateBehavior E node ctx rules initialVariables indent
          = Inl (eventNotKnown E node rule (event rec))"
      using c by blast
  next
    assume "then_record (rule_then rule) = Some rec
          \<and> (rule_rule rule = ''always''
               \<or> rule_rule rule = ''condition''
                  \<and> (rule_if rule \<noteq> None \<or> rule_if_not rule \<noteq> None))
          \<and> rule \<in> set (rulesInOrder_list rules)
          \<and> (\<forall>p \<in> set (rulesInOrder_list rules). p \<noteq> rule \<longrightarrow> ownDiagnostic E node ctx p = None)"
    then show "convertRuleConfigToAggregateBehavior E node ctx rules initialVariables indent
           = Inl (eventNotKnown E node rule (event rec))
         \<longleftrightarrow> \<not> (\<exists>evt \<in> set events. className E (getName evt) = className E (event rec))"
      using e by blast
  next
    assume "then_record (rule_then rule) = Some rec
          \<and> (rule_rule rule = ''always''
               \<or> rule_rule rule = ''condition''
                  \<and> (rule_if rule \<noteq> None \<or> rule_if_not rule \<noteq> None))
          \<and> rule \<in> set (rulesInOrder_list rules)
          \<and> (\<forall>p \<in> set (rulesInOrder_list rules). p \<noteq> rule \<longrightarrow> ownDiagnostic E node ctx p = None)"
    then show "(\<exists>out. convertRuleConfigToAggregateBehavior E node ctx rules initialVariables indent
                    = Inr out)
           \<longleftrightarrow> (\<exists>evt \<in> set events. className E (getName evt) = className E (event rec))"
      using e by blast
  qed
qed

theorem C6_event_among_targets_witness:
  \<open>convertRuleConfigToAggregateBehavior exampleCollaborators exampleAggregate ()
       [exampleRecord, exampleShipped] [] ''  ''
     = Inl (eventNotKnown exampleCollaborators exampleAggregate exampleShipped ''Order Shipped'')
   \<and> (\<exists>out. convertRuleConfigToAggregateBehavior exampleCollaborators exampleAggregate ()
          [exampleRecord] [] ''  '' = Inr out)
   \<and> convertThenRecordEvent exampleCollaborators exampleAggregate ()
       \<lparr>event = ''Order Placed'', mapping = MappingString ''command''\<rparr> exampleRecord [] []
     = (Inr ReturnedUndefined, [''yield OrderPlaced(await jexl.eval("command", ctx));''])\<close>
proof -
  have s: "detectService exampleCollaborators exampleAggregate () = Inr ''Shop''"
    and t: "getTargetsOfType exampleCollaborators exampleAggregate ''event'' True
              = Inr [\<lparr>getName = ''OrderPlaced'', getType = ''event''\<rparr>]"
    by (simp_all add: exampleCollaborators_def)
  have d1: "CHR ''.'' \<notin> set (event \<lparr>event = ''Order Placed'', mapping = MappingString ''command''\<rparr>)"
    and d2: "CHR ''.'' \<notin> set (event \<lparr>event = ''Order Shipped'', mapping = MappingString ''command''\<rparr>)"
    by simp_all
  note shipped = C6_event_among_targets[OF s d2 t, where rule = exampleShipped
      and rules = "[exampleRecord, exampleShipped]" and before = "[exampleRecord]" and after = "[]"
      and initialVariables = "[]" and indent = "''  ''" and lines = "[]"]
  note placed = C6_event_among_targets[OF s d1 t, where rule = exampleRecord
      and rules = "[exampleRecord]" and initialVariables = "[]" and indent = "''  ''"
      and lines = "[]"]
  have a: "convertRuleConfigToAggregateBehavior exampleCollaborators exampleAggregate ()
       [exampleRecord, exampleShipped] [] ''  ''
     = Inl (eventNotKnown exampleCollaborators exampleAggregate exampleShipped
         (event \<lparr>event = ''Order Shipped'', mapping = MappingString ''command''\<rparr>))"
    using shipped exampleShipped_reached by blast
  have m: "\<exists>evt \<in> set [\<lparr>getName = ''OrderPlaced'', getType = ''event''\<rparr>].
          className exampleCollaborators (getName evt)
            = className exampleCollaborators
                (event \<lparr>event = ''Order Placed'', mapping = MappingString ''command''\<rparr>)"
    by (simp add: exampleCollaborators_def)
  have b: "\<exists>out. convertRuleConfigToAggregateBehavior exampleCollaborators exampleAggregate ()
          [exampleRecord] [] ''  '' = Inr out"
    using placed exampleRecord_alone m by blast
  show ?thesis
    using a b
    by (simp add: convertThenRecordEvent_def exampleCollaborators_def eventExists_def
        convertMapping_def wrapExpression_def)
qed

text \<open>
  Without these conditions the equivalence fails: for the event name
  \<^verbatim>\<open>Foo.Bar\<close> no target matches, and the diagnostic of the compiler is the one
  about the dot.
\<close>

theorem C6_counterexample:
  "\<not> (convertRuleConfigToAggregateBehavior exampleCollaborators exampleAggregate ()
          [exampleDotted] [] ''  ''
          = Inl (eventNotKnown exampleCollaborators exampleAggregate exampleDotted ''Foo.Bar'')
        \<longleftrightarrow> \<not> (\<exists>evt \<in> set [\<lparr>getName = ''OrderPlaced'', getType = ''event''\<rparr>].
                 className exampleCollaborators (getName evt)
                   = className exampleCollaborators ''Foo.Bar''))"
proof -
  have "convertRuleConfigToAggregateBehavior exampleCollaborators exampleAggregate ()
          [exampleDotted] [] ''  ''
        = Inl (dotInEventName exampleCollaborators exampleAggregate exampleDotted ''Shop'')"
    by (simp add: convertRuleConfigToAggregateBehavior_def convert_simps example_defs)
  then show ?thesis
    by (simp add: dotInEventName_def eventNotKnown_def exampleCollaborators_def)
qed

text \<open>
  Claim C7. A condition rule that translates pushes the header of the
  conditional, the translation of its \<^verbatim>\<open>then\<close> at two more spaces of indentation,
  and the closing brace; when \<^verbatim>\<open>stop\<close> is true, a \<^verbatim>\<open>return;\<close> stands between
  the translation of \<^verbatim>\<open>then\<close> and the closing brace, and when \<^verbatim>\<open>stop\<close> is false
  or not set, nothing stands there.
\<close>

theorem C7_stop_emits_return:
  assumes "rule_rule rule = ''condition''"
    and "convertRule E node ctx rule lines indent = (Inr s, out)"
  shows \<open>\<exists>header s' body.
      ((\<exists>e. rule_if rule = Some e
            \<and> header = indent @ ''if ('' @ ''('' @ wrapExpression e @ '')) {'')
       \<or> (\<exists>e. rule_if rule = None \<and> rule_if_not rule = Some e
            \<and> header = indent @ ''if (!'' @ ''('' @ wrapExpression e @ '')) {''))
      \<and> convertThen E node ctx rule [] (indent @ ''  '') = (Inr s', body)
      \<and> out = (if rule_stop rule = Some True
               then lines @ [header] @ body @ [indent @ ''  return;'', indent @ ''}'']
               else lines @ [header] @ body @ [indent @ ''}''])\<close>
proof -
  from assms have "convertConditionRule E node ctx rule lines indent = (Inr s, out)"
    by (simp add: convertRule_condition)
  from convertConditionRule_success[OF this]
  obtain ifCondition expr s' body where
    c: "(case rule_if rule of
         Some e \<Rightarrow> Some (''if ('', e)
       | None \<Rightarrow> (case rule_if_not rule of Some e \<Rightarrow> Some (''if (!'', e) | None \<Rightarrow> None))
        = Some (ifCondition, expr)"
    and t: "convertThen E node ctx rule [] (indent @ ''  '') = (Inr s', body)"
    and o: "out = lines @ [indent @ ifCondition @ ''('' @ wrapExpression expr @ '')) {''] @ body
                @ (if rule_stop rule = Some True then [indent @ ''  return;''] else [])
                @ [indent @ ''}'']"
    by blast
  have h: "(\<exists>e. rule_if rule = Some e
            \<and> indent @ ifCondition @ ''('' @ wrapExpression expr @ '')) {''
                = indent @ ''if ('' @ ''('' @ wrapExpression e @ '')) {'')
       \<or> (\<exists>e. rule_if rule = None \<and> rule_if_not rule = Some e
            \<and> indent @ ifCondition @ ''('' @ wrapExpression expr @ '')) {''
                = indent @ ''if (!'' @ ''('' @ wrapExpression e @ '')) {'')"
    using c by (auto split: option.splits)
  show ?thesis
    apply (rule exI[of _ "indent @ ifCondition @ ''('' @ wrapExpression expr @ '')) {''"])
    apply (rule exI[of _ s'])
    apply (rule exI[of _ body])
    using h t o apply simp
    done
qed

theorem C7_stop_emits_return_witness:
  \<open>snd (convertRule exampleCollaborators exampleAggregate () exampleOuter [] [])
     = [''if ((await jexl.eval("paid", ctx))) {'']
       @ snd (convertThen exampleCollaborators exampleAggregate () exampleOuter [] ''  '')
       @ [''  return;'', ''}'']
   \<and> snd (convertRule exampleCollaborators exampleAggregate () exampleInner [] ''  '')
     = [''  if (!(await jexl.eval("open", ctx))) {'']
       @ snd (convertThen exampleCollaborators exampleAggregate () exampleInner [] ''    '')
       @ [''  }'']\<close>
proof -
  have o: "rule_rule exampleOuter = ''condition''" and i: "rule_rule exampleInner = ''condition''"
    by (simp_all add: exampleOuter_def exampleInner_def)
  have sel: "rule_if exampleOuter = Some ''paid''" "rule_stop exampleOuter = Some True"
    "rule_if exampleInner = None" "rule_if_not exampleInner = Some ''open''"
    "rule_stop exampleInner = None"
    by (simp_all add: exampleOuter_def exampleInner_def)
  show ?thesis
    using C7_stop_emits_return[OF o exampleOuter_lines] C7_stop_emits_return[OF i exampleInner_lines]
    by (auto simp add: sel exampleOuter_lines exampleInner_lines wrapExpression_def)
qed

text \<open>
  Claim C8. For a rule with the condition \<^verbatim>\<open>if E\<close> that executes the rules
  \<^verbatim>\<open>R1\<close> and \<^verbatim>\<open>R2\<close>, the body of the conditional is the translation of
  \<^verbatim>\<open>R1\<close> followed by the translation of \<^verbatim>\<open>R2\<close>, each the result of
  \<^verbatim>\<open>convertRule\<close>, the function that translates the rules of the top-level list.
\<close>

theorem C8_nested_rules_in_order:
  assumes "rule_rule rule = ''condition''"
    and "rule_if rule = Some e"
    and "then_record (rule_then rule) = None"
    and "then_execute (rule_then rule) = Some [R1, R2]"
    and "convertRule E node ctx rule lines indent = (Inr s, out)"
  shows \<open>\<exists>s1 s2 t1 t2.
      convertRule E node ctx R1 [] (indent @ ''  '') = (Inr s1, t1)
      \<and> convertRule E node ctx R2 [] (indent @ ''  '') = (Inr s2, t2)
      \<and> out = lines @ [indent @ ''if (('' @ wrapExpression e @ '')) {''] @ t1 @ t2
                @ (if rule_stop rule = Some True then [indent @ ''  return;''] else [])
                @ [indent @ ''}'']\<close>
proof -
  from assms(1,5) have "convertConditionRule E node ctx rule lines indent = (Inr s, out)"
    by (simp add: convertRule_condition)
  from convertConditionRule_success[OF this] assms(2)
  obtain s' body where
    t: "convertThen E node ctx rule [] (indent @ ''  '') = (Inr s', body)"
    and o: "out = lines @ [indent @ ''if ('' @ ''('' @ wrapExpression e @ '')) {''] @ body
                @ (if rule_stop rule = Some True then [indent @ ''  return;''] else [])
                @ [indent @ ''}'']"
    by auto
  have x: "convertThenExecuteRules E node ctx [R1, R2] rule [] (indent @ ''  '') = (Inr s', body)"
    using t by (simp add: convertThen_execute[OF assms(3,4)])
  obtain r1 t1 where r1: "convertRule E node ctx R1 [] (indent @ ''  '') = (r1, t1)"
    by (cases "convertRule E node ctx R1 [] (indent @ ''  '')")
  obtain r2 t2 where r2: "convertRule E node ctx R2 [] (indent @ ''  '') = (r2, t2)"
    by (cases "convertRule E node ctx R2 [] (indent @ ''  '')")
  have r2': "convertRule E node ctx R2 t1 (indent @ ''  '') = (r2, t1 @ t2)"
    by (subst convertRule_frame) (simp add: r2)
  from x r1 r2' obtain s1 s2 where "r1 = Inr s1" "r2 = Inr s2" "body = t1 @ t2"
    by (cases r1; cases r2) simp_all
  with r1 r2 o show ?thesis by simp
qed

theorem C8_nested_rules_in_order_witness:
  \<open>snd (convertRule exampleCollaborators exampleAggregate () exampleOuter [] [])
     = [''if ((await jexl.eval("paid", ctx))) {'']
       @ snd (convertRule exampleCollaborators exampleAggregate () exampleRecord [] ''  '')
       @ snd (convertRule exampleCollaborators exampleAggregate () exampleInner [] ''  '')
       @ [''  return;'', ''}'']\<close>
proof -
  have h: "rule_rule exampleOuter = ''condition''" "rule_if exampleOuter = Some ''paid''"
    "then_record (rule_then exampleOuter) = None"
    "then_execute (rule_then exampleOuter) = Some [exampleRecord, exampleInner]"
    by (simp_all add: exampleOuter_def)
  have sel: "rule_stop exampleOuter = Some True"
    by (simp add: exampleOuter_def)
  show ?thesis
    using C8_nested_rules_in_order[OF h exampleOuter_lines]
    by (auto simp add: sel exampleOuter_lines wrapExpression_def)
qed

text \<open>
  Claim C9, as the code has it. An object mapping is translated to one entry
  for each of its properties, under their names, whose value is the expression
  wrapped in \<^verbatim>\<open>await jexl.eval\<close>; the entries stand between braces, in the order
  of \<^verbatim>\<open>for ... in\<close>: first the properties whose names are array indices, by
  ascending index, then the other properties in the order of their
  declaration. When no name is an array index, that is the order of the
  declaration. A string mapping is translated to the wrapped expression alone.
\<close>

theorem C9_mapping_structure:
  \<open>convertMapping node ctx (PropMapping props) rule indent =
      Inr (''{\<newline>''
           @ concat (map (\<lambda>(propName, expr).
                indent @ ''  "'' @ propName @ ''": await jexl.eval("'' @ expr @ ''", ctx),\<newline>'')
                (forIn props))
           @ indent @ ''}'')
   \<and> (\<forall>p. count_list (forIn props) p = count_list props p)
   \<and> (\<exists>indexed. forIn props = indexed @ filter (\<lambda>p. arrayIndex (fst p) = None) props
         \<and> list_all (\<lambda>p. arrayIndex (fst p) \<noteq> None) indexed
         \<and> sorted (map (\<lambda>p. case arrayIndex (fst p) of Some n \<Rightarrow> n | None \<Rightarrow> 0) indexed))
   \<and> ((\<forall>p \<in> set props. arrayIndex (fst p) = None) \<longrightarrow> forIn props = props)
   \<and> convertMapping node ctx (MappingString expr) rule indent
       = Inr (''await jexl.eval("'' @ expr @ ''", ctx)'')\<close>
  using forIn_split[of props] forIn_no_index[of props]
  by (simp add: convertMapping_def convertMapping_loop_eq wrapExpression_def count_list_forIn)

theorem C9_mapping_structure_witness:
  \<open>convertMapping exampleAggregate ()
       (PropMapping [(''b'', ''x''), (''2'', ''y''), (''a'', ''z''), (''1'', ''w'')]) exampleInner ''''
     = Inr ''{\<newline>  "1": await jexl.eval("w", ctx),\<newline>  "2": await jexl.eval("y", ctx),\<newline>  "b": await jexl.eval("x", ctx),\<newline>  "a": await jexl.eval("z", ctx),\<newline>}''
   \<and> forIn [(''id'', ''command.id''), (''total'', ''command.total'')]
     = [(''id'', ''command.id''), (''total'', ''command.total'')]\<close>
proof -
  have n: "\<forall>p \<in> set [(''id'', ''command.id''), (''total'', ''command.total'')].
      arrayIndex (fst p) = None"
    by (simp add: arrayIndex_def digitValue_def)
  have f: "forIn [(''b'', ''x''), (''2'', ''y''), (''a'', ''z''), (''1'', ''w'')]
      = [(''1'', ''w''), (''2'', ''y''), (''b'', ''x''), (''a'', ''z'')]"
    by (simp add: forIn_def arrayIndex_def digitValue_def)
  show ?thesis
    using C9_mapping_structure[of exampleAggregate "()"
        "[(''b'', ''x''), (''2'', ''y''), (''a'', ''z''), (''1'', ''w'')]" exampleInner "''''" "''''"]
      C9_mapping_structure[of exampleAggregate "()"
        "[(''id'', ''command.id''), (''total'', ''command.total'')]" exampleInner "''''" "''''"]
      n
    by (simp add: f)
qed

text \<open>
  The entries are not always in the order of the declaration: for the
  properties \<^verbatim>\<open>b\<close>, \<^verbatim>\<open>2\<close>, \<^verbatim>\<open>a\<close>, \<^verbatim>\<open>1\<close> they are emitted as \<^verbatim>\<open>1\<close>, \<^verbatim>\<open>2\<close>,
  \<^verbatim>\<open>b\<close>, \<^verbatim>\<open>a\<close>.
\<close>

theorem C9_counterexample:
  \<open>\<not> (convertMapping exampleAggregate ()
        (PropMapping [(''b'', ''x''), (''2'', ''y''), (''a'', ''z''), (''1'', ''w'')]) exampleInner ''''
      = Inr (''{\<newline>''
           @ concat (map (\<lambda>(propName, expr).
                '''' @ ''  "'' @ propName @ ''": await jexl.eval("'' @ expr @ ''", ctx),\<newline>'')
                [(''b'', ''x''), (''2'', ''y''), (''a'', ''z''), (''1'', ''w'')])
           @ '''' @ ''}''))\<close>
  by (simp add: convertMapping_def convertMapping_loop_eq wrapExpression_def forIn_def
      arrayIndex_def digitValue_def)

text \<open>
  Claim C10. In the output of the compiler, the assignment of an initial
  variable holds the initializer as it is written, not wrapped in
  \<^verbatim>\<open>await jexl.eval\<close>; the expression of an \<^verbatim>\<open>if\<close> or \<^verbatim>\<open>if_not\<close> condition
  and the expressions of a mapping are wrapped.
\<close>

theorem C10_initializers_verbatim:
  \<open>(rules \<noteq> []
      \<and> convertRuleConfigToAggregateBehavior E aggregate ctx rules initialVariables indent = Inr out
      \<longrightarrow> out = join ''\<newline>''
            ([indent @ ''const ctx: any = {};'']
             @ map (\<lambda>variable. indent @ ''ctx['' @ [CHR 0x27] @ name variable @ [CHR 0x27]
                                  @ ''] = '' @ initializer variable @ '';'') initialVariables
             @ concat (map ((#) '''') (translationsOf E aggregate ctx rules indent)) @ ['''']))
   \<and> (rule_if rule = Some e \<longrightarrow>
        (\<exists>res rest. convertConditionRule E aggregate ctx rule lines indent =
           (res, lines @ [indent @ ''if ((await jexl.eval("'' @ e @ ''", ctx))) {''] @ rest)))
   \<and> (rule_if rule = None \<and> rule_if_not rule = Some e \<longrightarrow>
        (\<exists>res rest. convertConditionRule E aggregate ctx rule lines indent =
           (res, lines @ [indent @ ''if (!(await jexl.eval("'' @ e @ ''", ctx))) {''] @ rest)))
   \<and> convertMapping aggregate ctx (MappingString e) rule indent
        = Inr (''await jexl.eval("'' @ e @ ''", ctx)'')
   \<and> convertMapping aggregate ctx (PropMapping props) rule indent
        = Inr (''{\<newline>''
             @ concat (map (\<lambda>(propName, expr).
                  indent @ ''  "'' @ propName @ ''": await jexl.eval("'' @ expr @ ''", ctx),\<newline>'')
                  (forIn props))
             @ indent @ ''}'')\<close>
proof -
  have v: "map (variableLine indent) initialVariables =
      map (\<lambda>variable. indent @ ''ctx['' @ [CHR 0x27] @ name variable @ [CHR 0x27]
                                  @ ''] = '' @ initializer variable @ '';'') initialVariables"
    by (simp add: variableLine_def)
  have a: "out = join ''\<newline>''
            ([indent @ ''const ctx: any = {};'']
             @ map (\<lambda>variable. indent @ ''ctx['' @ [CHR 0x27] @ name variable @ [CHR 0x27]
                                  @ ''] = '' @ initializer variable @ '';'') initialVariables
             @ concat (map ((#) '''') (translationsOf E aggregate ctx rules indent)) @ [''''])"
    if "rules \<noteq> []"
      "convertRuleConfigToAggregateBehavior E aggregate ctx rules initialVariables indent = Inr out"
    using that unfolding v[symmetric]
    by (simp add: compile_eq split: option.splits)
  have b: \<open>\<exists>res rest. convertConditionRule E aggregate ctx rule lines indent =
           (res, lines @ [indent @ ''if ((await jexl.eval("'' @ e @ ''", ctx))) {''] @ rest)\<close>
    if "rule_if rule = Some e"
    using convertConditionRule_header[of rule "''if (''" e E aggregate ctx lines indent] that
    by (simp add: wrapExpression_def)
  have c: \<open>\<exists>res rest. convertConditionRule E aggregate ctx rule lines indent =
           (res, lines @ [indent @ ''if (!(await jexl.eval("'' @ e @ ''", ctx))) {''] @ rest)\<close>
    if "rule_if rule = None" "rule_if_not rule = Some e"
    using convertConditionRule_header[of rule "''if (!''" e E aggregate ctx lines indent] that
    by (simp add: wrapExpression_def)
  have d: \<open>convertMapping aggregate ctx (MappingString e) rule indent
        = Inr (''await jexl.eval("'' @ e @ ''", ctx)'')\<close>
    by (simp add: convertMapping_def wrapExpression_def)
  have f: \<open>convertMapping aggregate ctx (PropMapping props) rule indent
        = Inr (''{\<newline>''
             @ concat (map (\<lambda>(propName, expr).
                  indent @ ''  "'' @ propName @ ''": await jexl.eval("'' @ expr @ ''", ctx),\<newline>'')
                  (forIn props))
             @ indent @ ''}'')\<close>
    by (simp add: convertMapping_def convertMapping_loop_eq wrapExpression_def)
  from a b c d f show ?thesis
    by blast
qed

theorem C10_initializers_verbatim_witness:
  \<open>convertRuleConfigToAggregateBehavior exampleCollaborators exampleAggregate () [exampleInner]
       [\<lparr>name = ''total'', initializer = ''command.price * 2''\<rparr>] ''  ''
     = Inr ''  const ctx: any = {};\<newline>  ctx['total'] = command.price * 2;\<newline>\<newline>  if (!(await jexl.eval("open", ctx))) {\<newline>    yield OrderPlaced({\<newline>      "id": await jexl.eval("command.id", ctx),\<newline>      "total": await jexl.eval("command.total", ctx),\<newline>    });\<newline>  }\<newline>''
   \<and> (\<exists>res rest. convertConditionRule exampleCollaborators exampleAggregate () exampleInner [] ''  ''
         = (res, [''  if (!(await jexl.eval("open", ctx))) {''] @ rest))\<close>
  (is "?c = Inr ?T \<and> ?h")
proof -
  have n: "[exampleInner] \<noteq> []"
    and i: "rule_if exampleInner = None \<and> rule_if_not exampleInner = Some ''open''"
    by (simp_all add: exampleInner_def)
  have c: "?c = Inr ?T"
    by (simp add: compile_eq firstDiagnostic_def translationsOf_def isCodyError_def
        exampleInner_lines variableLine_def)
  show ?thesis
    using C10_initializers_verbatim[of "[exampleInner]" exampleCollaborators exampleAggregate "()"
        "[\<lparr>name = ''total'', initializer = ''command.price * 2''\<rparr>]" "''  ''" ?T
        exampleInner "''open''" "[]" "[]"] n i c
    by simp
qed

end
